theory Spec2Isabelle
  imports Complex_Main
begin

section \<open>Strings and values of the runtime\<close>

text \<open>
  The service of \<^verbatim>\<open>src/services/telegram.ts\<close> is embedded function by function.
  A JavaScript string is modelled by its UTF-8 bytes (\<^typ>\<open>string\<close>); the characters
  the code inspects (\<^verbatim>\<open>& < > " '\<close> and the two needles of the error
  classification) are ASCII, and an ASCII byte never occurs inside the encoding of another
  code point, so replacing and searching them byte-wise is what the code does on code
  units. A value of type \<^verbatim>\<open>string | undefined\<close> is a \<^typ>\<open>string option\<close>.
\<close>

text \<open>\<^verbatim>\<open>text.replace(/c/g, r)\<close> for a single literal character \<open>c\<close> and a
  replacement \<open>r\<close> without \<^verbatim>\<open>$\<close> patterns.\<close>

definition replaceAll :: "char \<Rightarrow> string \<Rightarrow> string \<Rightarrow> string" where
  "replaceAll c r text = concat (map (\<lambda>x. if x = c then r else [x]) text)"

text \<open>\<^verbatim>\<open>escapeHtml\<close> (lines 33--41): a falsy argument (\<^verbatim>\<open>undefined\<close> or the
  empty string) gives the empty string; otherwise the five replacements run in the order
  of the source, the ampersand first.\<close>

definition escapeHtml :: "string option \<Rightarrow> string" where
  "escapeHtml text =
     (case text of
        None \<Rightarrow> []
      | Some t \<Rightarrow>
          if t = [] then []
          else replaceAll (CHR 0x27) ''&#39;''
                 (replaceAll (CHR 0x22) ''&quot;''
                   (replaceAll CHR ''>'' ''&gt;''
                     (replaceAll CHR ''<'' ''&lt;''
                       (replaceAll CHR ''&'' ''&amp;'' t)))))"

text \<open>The escaping as the specification words it, one character at a time: each of the
  five markup characters becomes its entity, every other character stays.\<close>

definition escapeChar :: "char \<Rightarrow> string" where
  "escapeChar c =
     (if c = CHR ''&'' then ''&amp;''
      else if c = CHR ''<'' then ''&lt;''
      else if c = CHR ''>'' then ''&gt;''
      else if c = CHR 0x22 then ''&quot;''
      else if c = CHR 0x27 then ''&#39;''
      else [c])"

definition escapeSpec :: "string \<Rightarrow> string" where
  "escapeSpec t = concat (map escapeChar t)"

text \<open>\<^verbatim>\<open>x || d\<close> on an optional string: the default for \<^verbatim>\<open>undefined\<close> and
  for the empty string.\<close>

definition orDefault :: "string option \<Rightarrow> string \<Rightarrow> string" where
  "orDefault x d = (case x of None \<Rightarrow> d | Some t \<Rightarrow> if t = [] then d else t)"

text \<open>Decimal rendering of an integer, as a template literal renders a number.\<close>

definition digitChar :: "nat \<Rightarrow> char" where
  "digitChar d = ''0123456789'' ! d"

fun natToString :: "nat \<Rightarrow> string" where
  "natToString n = (if n < 10 then [digitChar n] else natToString (n div 10) @ [digitChar (n mod 10)])"

definition numberToString :: "int \<Rightarrow> string" where
  "numberToString i = (if i < 0 then CHR ''-'' # natToString (nat (- i)) else natToString (nat i))"

section \<open>The appointment and its message\<close>

text \<open>\<^verbatim>\<open>VisaAppointment\<close> is declared in \<^verbatim>\<open>../types\<close>, outside the file; its
  fields are taken as the formatter reads them. The fields it guards with \<^verbatim>\<open>||\<close> or
  hands to \<^verbatim>\<open>escapeHtml\<close>'s own guard may be absent. The two fields on which line 71
  calls a method without a guard, \<^verbatim>\<open>country_code\<close> and \<^verbatim>\<open>mission_code\<close>, have the
  type \<open>'code\<close>: a \<^typ>\<open>string\<close> in an appointment of the shape the code relies on
  (\<open>VisaAppointment\<close>, what the dispatcher queues), a \<^typ>\<open>string option\<close> in an
  object as it may arrive at run time, where nothing enforces the declaration
  (\<open>arrivedAppointment\<close>). An absent \<^verbatim>\<open>status\<close> is rendered like the empty one, and
  an absent \<^verbatim>\<open>last_checked_at\<close> is an argument of \<open>toLocaleString\<close> like any other.\<close>

record 'code appointmentObject =
  ident :: int
  center :: "string option"
  country_code :: 'code
  mission_code :: 'code
  visa_category :: "string option"
  visa_type :: "string option"
  status :: string
  last_available_date :: "string option"
  tracking_count :: "int option"
  last_checked_at :: string

type_synonym VisaAppointment = "string appointmentObject"

type_synonym arrivedAppointment = "string option appointmentObject"

text \<open>The two library calls of the formatter whose results depend on the Unicode and
  locale tables of the runtime are parameters: \<^verbatim>\<open>String.prototype.toUpperCase\<close> and
  \<^verbatim>\<open>new Date(x).toLocaleString('tr-TR', ...)\<close>. Neither throws.\<close>

record runtime =
  toUpperCase :: "string \<Rightarrow> string"
  toLocaleString :: "string \<Rightarrow> string"

definition emojiOpen :: string where
  "emojiOpen = [CHR 0xE2, CHR 0x9C, CHR 0x85]"

definition emojiWaitlist :: string where
  "emojiWaitlist = [CHR 0xE2, CHR 0x8F, CHR 0xB3]"

definition emojiUnknown :: string where
  "emojiUnknown = [CHR 0xE2, CHR 0x9D, CHR 0x93]"

definition textOpen :: string where
  "textOpen = ''A'' @ [CHR 0xC3, CHR 0xA7, CHR 0xC4, CHR 0xB1] @ ''k''"

definition textWaitlist :: string where
  "textWaitlist = ''Bekleme Listesi A'' @ [CHR 0xC3, CHR 0xA7, CHR 0xC4, CHR 0xB1] @ ''k''"

definition notSpecified :: string where
  "notSpecified = ''Belirtilmemi'' @ [CHR 0xC5, CHR 0x9F]"

definition statusEmoji :: "'code appointmentObject \<Rightarrow> string" where
  "statusEmoji a =
     (if status a = ''open'' then emojiOpen
      else if status a = ''waitlist_open'' then emojiWaitlist
      else emojiUnknown)"

definition statusText :: "'code appointmentObject \<Rightarrow> string" where
  "statusText a =
     (if status a = ''open'' then textOpen
      else if status a = ''waitlist_open'' then textWaitlist
      else status a)"

definition lastCheckedDate :: "runtime \<Rightarrow> 'code appointmentObject \<Rightarrow> string" where
  "lastCheckedDate rt a = toLocaleString rt (last_checked_at a)"

text \<open>The interpolated expressions of the template literal (lines 68--79), one definition
  per \<^verbatim>\<open>${...}\<close>.\<close>

definition centerSlot :: "'code appointmentObject \<Rightarrow> string" where
  "centerSlot a = escapeHtml (center a)"

definition countrySlot :: "runtime \<Rightarrow> VisaAppointment \<Rightarrow> string" where
  "countrySlot rt a = escapeHtml (Some (toUpperCase rt (country_code a)))"

definition missionSlot :: "runtime \<Rightarrow> VisaAppointment \<Rightarrow> string" where
  "missionSlot rt a = escapeHtml (Some (toUpperCase rt (mission_code a)))"

definition categorySlot :: "'code appointmentObject \<Rightarrow> string" where
  "categorySlot a = escapeHtml (Some (orDefault (visa_category a) notSpecified))"

definition typeSlot :: "'code appointmentObject \<Rightarrow> string" where
  "typeSlot a = escapeHtml (Some (orDefault (visa_type a) notSpecified))"

definition statusSlot :: "'code appointmentObject \<Rightarrow> string" where
  "statusSlot a = escapeHtml (Some (statusText a))"

definition dateSlot :: "'code appointmentObject \<Rightarrow> string" where
  "dateSlot a = escapeHtml (Some (orDefault (last_available_date a) notSpecified))"

definition trackingSlot :: "'code appointmentObject \<Rightarrow> string" where
  "trackingSlot a =
     numberToString (case tracking_count a of None \<Rightarrow> 0 | Some n \<Rightarrow> if n = 0 then 0 else n)"

definition checkedSlot :: "runtime \<Rightarrow> 'code appointmentObject \<Rightarrow> string" where
  "checkedSlot rt a = escapeHtml (Some (lastCheckedDate rt a))"

text \<open>The literal text between the slots.\<close>

definition lblTitle :: string where
  "lblTitle = '' YEN'' @ [CHR 0xC4, CHR 0xB0] @ '' RANDEVU DURUMU</b>''
     @ [CHR 0x0A, CHR 0x0A, CHR 0xF0, CHR 0x9F, CHR 0x8F, CHR 0xA2] @ '' <b>Merkez:</b> ''"

definition lblCountry :: string where
  "lblCountry = [CHR 0x0A, CHR 0xF0, CHR 0x9F, CHR 0x8C, CHR 0x8D] @ '' <b>''
     @ [CHR 0xC3, CHR 0x9C] @ ''lke/Misyon:</b> ''"

definition lblArrow :: string where
  "lblArrow = '' '' @ [CHR 0xE2, CHR 0x86, CHR 0x92] @ '' ''"

definition lblCategory :: string where
  "lblCategory = [CHR 0x0A, CHR 0xF0, CHR 0x9F, CHR 0x9B, CHR 0x82] @ '' <b>Kategori:</b> ''"

definition lblType :: string where
  "lblType = [CHR 0x0A, CHR 0xF0, CHR 0x9F, CHR 0x93, CHR 0x84] @ '' <b>Tip:</b> ''"

definition lblStatus :: string where
  "lblStatus = [CHR 0x0A, CHR 0xF0, CHR 0x9F, CHR 0x9A, CHR 0xA6] @ '' <b>Durum:</b> ''"

definition lblDate :: string where
  "lblDate = [CHR 0x0A, CHR 0xF0, CHR 0x9F, CHR 0x97, CHR 0x93, CHR 0xEF, CHR 0xB8, CHR 0x8F]
     @ '' <b>Son M'' @ [CHR 0xC3, CHR 0xBC] @ ''sait Tarih:</b> ''"

definition lblTracking :: string where
  "lblTracking = [CHR 0x0A, CHR 0xF0, CHR 0x9F, CHR 0x93, CHR 0x8A] @ '' <b>Takip Say''
     @ [CHR 0xC4, CHR 0xB1] @ ''s'' @ [CHR 0xC4, CHR 0xB1] @ '':</b> ''"

definition lblChecked :: string where
  "lblChecked = [CHR 0x0A, CHR 0xE2, CHR 0x8F, CHR 0xB0] @ '' <b>Son Kontrol:</b> ''"

definition lblFooter :: string where
  "lblFooter = [CHR 0x0A, CHR 0x0A] @ ''<i>Bu randevu otomatik olarak tespit edilmi''
     @ [CHR 0xC5, CHR 0x9F] @ ''tir.</i>''"

text \<open>\<^verbatim>\<open>formatMessage\<close> (lines 44--82).\<close>

definition formatMessage :: "runtime \<Rightarrow> VisaAppointment \<Rightarrow> string" where
  "formatMessage rt a =
     ''<b>'' @ statusEmoji a @ lblTitle @ centerSlot a
     @ lblCountry @ countrySlot rt a @ lblArrow @ missionSlot rt a
     @ lblCategory @ categorySlot a
     @ lblType @ typeSlot a
     @ lblStatus @ statusEmoji a @ '' '' @ statusSlot a
     @ lblDate @ dateSlot a
     @ lblTracking @ trackingSlot a
     @ lblChecked @ checkedSlot rt a
     @ lblFooter"

text \<open>\<^verbatim>\<open>formatMessage\<close> on an object as it may arrive. A method call on
  \<^verbatim>\<open>undefined\<close> throws a \<^verbatim>\<open>TypeError\<close>; nothing else in lines 44--82 can throw, and
  nothing before line 71 has an effect, so the two calls are taken first.\<close>

datatype jsError = TypeError

definition methodToUpperCase :: "runtime \<Rightarrow> string option \<Rightarrow> jsError + string" where
  "methodToUpperCase rt x = (case x of None \<Rightarrow> Inl TypeError | Some t \<Rightarrow> Inr (toUpperCase rt t))"

definition formatMessageJS :: "runtime \<Rightarrow> arrivedAppointment \<Rightarrow> jsError + string" where
  "formatMessageJS rt e =
     (case methodToUpperCase rt (country_code e) of
        Inl err \<Rightarrow> Inl err
      | Inr cc \<Rightarrow>
          (case methodToUpperCase rt (mission_code e) of
             Inl err \<Rightarrow> Inl err
           | Inr mc \<Rightarrow>
               Inr (''<b>'' @ statusEmoji e @ lblTitle @ centerSlot e
                    @ lblCountry @ escapeHtml (Some cc) @ lblArrow @ escapeHtml (Some mc)
                    @ lblCategory @ categorySlot e
                    @ lblType @ typeSlot e
                    @ lblStatus @ statusEmoji e @ '' '' @ statusSlot e
                    @ lblDate @ dateSlot e
                    @ lblTracking @ trackingSlot e
                    @ lblChecked @ checkedSlot rt e
                    @ lblFooter)))"

text \<open>The arrived object as an appointment of the declared shape, when it has one.\<close>

definition declared :: "arrivedAppointment \<Rightarrow> VisaAppointment option" where
  "declared e =
     (case country_code e of
        None \<Rightarrow> None
      | Some c \<Rightarrow>
          (case mission_code e of
             None \<Rightarrow> None
           | Some m \<Rightarrow>
               Some \<lparr> ident = ident e, center = center e, country_code = c, mission_code = m,
                      visa_category = visa_category e, visa_type = visa_type e, status = status e,
                      last_available_date = last_available_date e,
                      tracking_count = tracking_count e, last_checked_at = last_checked_at e \<rparr>))"

text \<open>A runtime for evaluating concrete messages. Its \<open>toUpperCase\<close> turns the ASCII
  letters to upper case, which is what the method does on ASCII strings. Its
  \<open>toLocaleString\<close> is the Turkish rendering in the zone of Istanbul (line 8) of the one
  time stamp the concrete appointments below carry, and \<^verbatim>\<open>Invalid Date\<close> otherwise, which
  is what the call gives for a string that is not a date. The concrete appointments hold
  ASCII codes and either that time stamp or a string that is not a date.\<close>

definition asciiUpper :: "char \<Rightarrow> char" where
  "asciiUpper c =
     (case map_of (zip ''abcdefghijklmnopqrstuvwxyz'' ''ABCDEFGHIJKLMNOPQRSTUVWXYZ'') c of
        None \<Rightarrow> c
      | Some u \<Rightarrow> u)"

definition asciiRuntime :: runtime where
  "asciiRuntime =
     \<lparr> toUpperCase = map asciiUpper,
       toLocaleString =
         (\<lambda>d. if d = ''2024-05-01T10:00:00Z'' then ''01.05.2024 13:00:00'' else ''Invalid Date'') \<rparr>"

section \<open>The dispatcher\<close>

text \<open>\<^verbatim>\<open>config\<close> comes from \<^verbatim>\<open>../config/environment\<close>, outside the file: the
  values the service reads are parameters. Numbers of the runtime are rationals (exact
  arithmetic in place of IEEE doubles); times are milliseconds.\<close>

record config =
  rateLimit :: rat
  retryAfter :: rat
  channelId :: string
  debug :: bool

text \<open>What the service writes to the console, by the line of the source that writes it.
  The \<open>Log\<close> lines are \<^verbatim>\<open>console.log\<close> under the debug flag, the two
  \<open>Err\<close> lines are \<^verbatim>\<open>console.error\<close>. The rate limiter's line carries the
  delay (\<open>None\<close> for the infinite one), the others the appointment's \<^verbatim>\<open>id\<close>.\<close>

datatype logline =
    LogRateLimitWait "rat option"
  | LogSending int
  | LogSent int
  | ErrNotification int string
  | LogRequeued
  | ErrFormatSkipped int

text \<open>The value a rejected \<^verbatim>\<open>sendMessage\<close> throws: an \<^verbatim>\<open>Error\<close> with its
  message, or any other value, given by its \<^verbatim>\<open>String(error)\<close>.\<close>

datatype thrown = ErrorObject string | OtherValue string

fun errorMessage :: "thrown \<Rightarrow> string" where
  "errorMessage (ErrorObject m) = m"
| "errorMessage (OtherValue v) = v"

fun startsWith :: "string \<Rightarrow> string \<Rightarrow> bool" where
  "startsWith s [] = True"
| "startsWith [] (n # ns) = False"
| "startsWith (c # cs) (n # ns) = (c = n \<and> startsWith cs ns)"

text \<open>\<^verbatim>\<open>String.prototype.includes\<close>.\<close>

fun stringIncludes :: "string \<Rightarrow> string \<Rightarrow> bool" where
  "stringIncludes [] needle = (needle = [])"
| "stringIncludes (c # cs) needle = (startsWith (c # cs) needle \<or> stringIncludes cs needle)"

text \<open>The condition of line 135: the error is retried unless its message has one of the
  two needles.\<close>

definition isRetriable :: "string \<Rightarrow> bool" where
  "isRetriable errorMsg =
     (\<not> stringIncludes errorMsg ''can't parse entities'' \<and> \<not> stringIncludes errorMsg ''Bad Request'')"

text \<open>\<^verbatim>\<open>processQueue\<close> is an async function: it runs until it awaits, and is resumed
  when the awaited promise settles. Where it is suspended, with the local variables it needs
  on resumption:
  \<^item> \<open>AwaitRateLimit a due\<close>: in the timer of line 110, holding the popped appointment;
  \<^item> \<open>AwaitSend a started\<close>: in \<^verbatim>\<open>sendMessage\<close> of line 119, called at \<open>started\<close>;
  \<^item> \<open>AwaitRetryPause due\<close>: in the timer of line 142;
  \<^item> \<open>NotRunning\<close>: no invocation is in progress.
  A timer's \<open>due\<close> is the time of the \<^verbatim>\<open>setTimeout\<close> call plus its delay.\<close>

datatype suspension =
    NotRunning
  | AwaitRateLimit VisaAppointment rat
  | AwaitSend VisaAppointment rat
  | AwaitRetryPause rat

record sendCall =
  callTime :: rat
  callChat :: string
  callText :: string
  callAppointment :: VisaAppointment

text \<open>The three fields of \<^verbatim>\<open>TelegramService\<close>, the suspended invocation, the clock
  read by \<^verbatim>\<open>Date.now()\<close>, and what the environment observes: the calls of
  \<^verbatim>\<open>sendMessage\<close> in order, the fulfilled sends with the times of call and
  fulfilment, and the console.\<close>

record state =
  lastMessageSentAt :: rat
  messageQueue :: "VisaAppointment list"
  isProcessingQueue :: bool
  awaiting :: suspension
  clock :: rat
  outbox :: "sendCall list"
  successes :: "(rat \<times> rat) list"
  console :: "logline list"

definition initial :: "rat \<Rightarrow> state" where
  "initial t0 =
     \<lparr> lastMessageSentAt = 0, messageQueue = [], isProcessingQueue = False,
       awaiting = NotRunning, clock = t0, outbox = [], successes = [], console = [] \<rparr>"

text \<open>Line 101. \<^verbatim>\<open>60 / 0\<close> is \<^verbatim>\<open>Infinity\<close> in the source, here \<open>None\<close>.\<close>

definition requiredDelay :: "config \<Rightarrow> rat option" where
  "requiredDelay cfg = (if rateLimit cfg = 0 then None else Some ((60 / rateLimit cfg) * 1000))"

definition debugLog :: "config \<Rightarrow> logline \<Rightarrow> state \<Rightarrow> state" where
  "debugLog cfg l s = (if debug cfg then s\<lparr>console := console s @ [l]\<rparr> else s)"

definition errorLog :: "logline \<Rightarrow> state \<Rightarrow> state" where
  "errorLog l s = s\<lparr>console := console s @ [l]\<rparr>"

text \<open>Lines 113--121: format, call \<^verbatim>\<open>sendMessage\<close>, await it.\<close>

definition sendStart :: "config \<Rightarrow> runtime \<Rightarrow> VisaAppointment \<Rightarrow> state \<Rightarrow> state" where
  "sendStart cfg rt a s =
     (let message = formatMessage rt a;
          s1 = debugLog cfg (LogSending (ident a)) s
      in s1\<lparr>outbox := outbox s1 @
               [\<lparr>callTime = clock s1, callChat = channelId cfg, callText = message,
                 callAppointment = a\<rparr>],
            awaiting := AwaitSend a (clock s1)\<rparr>)"

text \<open>Lines 95--111 and 150: the loop test, the pop, the rate limiter. The queue holds
  objects, so the popped value is never falsy and line 97 never continues. Every pass
  through the body awaits at least the send, so one call covers the code up to the next
  suspension. A timer set with the infinite delay is not held back by the runtime.\<close>

definition loopHead :: "config \<Rightarrow> runtime \<Rightarrow> state \<Rightarrow> state" where
  "loopHead cfg rt s =
     (case messageQueue s of
        [] \<Rightarrow> s\<lparr>isProcessingQueue := False, awaiting := NotRunning\<rparr>
      | a # rest \<Rightarrow>
          (let s1 = s\<lparr>messageQueue := rest\<rparr>;
               now = clock s1;
               timeSinceLastMessage = now - lastMessageSentAt s1
           in case requiredDelay cfg of
                None \<Rightarrow> (debugLog cfg (LogRateLimitWait None) s1)\<lparr>awaiting := AwaitRateLimit a now\<rparr>
              | Some rd \<Rightarrow>
                  if timeSinceLastMessage < rd then
                    (let delay = rd - timeSinceLastMessage
                     in (debugLog cfg (LogRateLimitWait (Some delay)) s1)
                          \<lparr>awaiting := AwaitRateLimit a (now + delay)\<rparr>)
                  else sendStart cfg rt a s1))"

text \<open>Line 94 and the entry of the loop.\<close>

definition processQueue :: "config \<Rightarrow> runtime \<Rightarrow> state \<Rightarrow> state" where
  "processQueue cfg rt s = loopHead cfg rt (s\<lparr>isProcessingQueue := True\<rparr>)"

text \<open>Lines 85--91. The result is the value the returned promise resolves to.\<close>

definition sendNotification :: "config \<Rightarrow> runtime \<Rightarrow> VisaAppointment \<Rightarrow> state \<Rightarrow> bool \<times> state" where
  "sendNotification cfg rt a s =
     (let s1 = s\<lparr>messageQueue := messageQueue s @ [a]\<rparr>
      in (True, if \<not> isProcessingQueue s1 then processQueue cfg rt s1 else s1))"

text \<open>Lines 123--126, then the next pass of the loop.\<close>

definition afterSendResolved :: "config \<Rightarrow> runtime \<Rightarrow> VisaAppointment \<Rightarrow> rat \<Rightarrow> state \<Rightarrow> state" where
  "afterSendResolved cfg rt a started s =
     (let s1 = debugLog cfg (LogSent (ident a)) s;
          s2 = s1\<lparr>lastMessageSentAt := clock s1, successes := successes s1 @ [(started, clock s1)]\<rparr>
      in loopHead cfg rt s2)"

text \<open>Lines 127--148: the catch block.\<close>

definition afterSendRejected :: "config \<Rightarrow> runtime \<Rightarrow> VisaAppointment \<Rightarrow> thrown \<Rightarrow> state \<Rightarrow> state" where
  "afterSendRejected cfg rt a e s =
     (let s1 = errorLog (ErrNotification (ident a) (errorMessage e)) s;
          errorMsg = errorMessage e
      in if isRetriable errorMsg then
           (let s2 = s1\<lparr>messageQueue := a # messageQueue s1\<rparr>;
                s3 = debugLog cfg LogRequeued s2
            in s3\<lparr>awaiting := AwaitRetryPause (clock s3 + retryAfter cfg)\<rparr>)
         else loopHead cfg rt (errorLog (ErrFormatSkipped (ident a)) s1))"

text \<open>Line 143 (\<^verbatim>\<open>break\<close>) and line 150.\<close>

definition afterRetryPause :: "state \<Rightarrow> state" where
  "afterRetryPause s = s\<lparr>isProcessingQueue := False, awaiting := NotRunning\<rparr>"

text \<open>What can happen to the service, each with the time at which it happens: a producer
  calls \<^verbatim>\<open>sendNotification\<close>, the pending timer fires, the pending send is fulfilled or
  rejected.\<close>

datatype action =
    Enqueue rat VisaAppointment
  | TimerFired rat
  | SendResolved rat
  | SendRejected rat thrown

fun actionTime :: "action \<Rightarrow> rat" where
  "actionTime (Enqueue t a) = t"
| "actionTime (TimerFired t) = t"
| "actionTime (SendResolved t) = t"
| "actionTime (SendRejected t e) = t"

text \<open>One step: the code that runs without suspension when the action happens. \<open>None\<close>
  when the action cannot happen in the state: time does not go back, a timer does not fire
  before it is due, and only the awaited promise settles. A producer's call in a state
  where the flag is down while an invocation is suspended would start a second invocation,
  which the state cannot hold; \<open>running_flag\<close> below shows that no run reaches such a
  state.\<close>

definition step :: "config \<Rightarrow> runtime \<Rightarrow> state \<Rightarrow> action \<Rightarrow> state option" where
  "step cfg rt s act =
     (if actionTime act < clock s then None
      else
        (let s0 = s\<lparr>clock := actionTime act\<rparr>
         in case act of
              Enqueue t a \<Rightarrow>
                if \<not> isProcessingQueue s \<and> awaiting s \<noteq> NotRunning then None
                else Some (snd (sendNotification cfg rt a s0))
            | TimerFired t \<Rightarrow>
                (case awaiting s of
                   AwaitRateLimit a due \<Rightarrow> if due \<le> t then Some (sendStart cfg rt a s0) else None
                 | AwaitRetryPause due \<Rightarrow> if due \<le> t then Some (afterRetryPause s0) else None
                 | _ \<Rightarrow> None)
            | SendResolved t \<Rightarrow>
                (case awaiting s of
                   AwaitSend a started \<Rightarrow> Some (afterSendResolved cfg rt a started s0)
                 | _ \<Rightarrow> None)
            | SendRejected t e \<Rightarrow>
                (case awaiting s of
                   AwaitSend a started \<Rightarrow> Some (afterSendRejected cfg rt a e s0)
                 | _ \<Rightarrow> None)))"

fun run :: "config \<Rightarrow> runtime \<Rightarrow> state \<Rightarrow> action list \<Rightarrow> state option" where
  "run cfg rt s [] = Some s"
| "run cfg rt s (act # acts) =
     (case step cfg rt s act of None \<Rightarrow> None | Some s' \<Rightarrow> run cfg rt s' acts)"

text \<open>Readings of a run and of a state that the properties speak about.\<close>

fun enqueued :: "action list \<Rightarrow> VisaAppointment list" where
  "enqueued [] = []"
| "enqueued (Enqueue t a # acts) = a # enqueued acts"
| "enqueued (act # acts) = enqueued acts"

fun isRejection :: "action \<Rightarrow> bool" where
  "isRejection (SendRejected t e) = True"
| "isRejection act = False"

definition delivered :: "state \<Rightarrow> VisaAppointment list" where
  "delivered s = map callAppointment (outbox s)"

text \<open>The appointment popped from the queue and not yet handed to the endpoint.\<close>

definition held :: "state \<Rightarrow> VisaAppointment list" where
  "held s = (case awaiting s of AwaitRateLimit a due \<Rightarrow> [a] | _ \<Rightarrow> [])"

text \<open>Each fulfilled send was called at least \<open>d\<close> after the one before it was fulfilled.\<close>

fun spaced :: "rat \<Rightarrow> (rat \<times> rat) list \<Rightarrow> bool" where
  "spaced d [] = True"
| "spaced d [x] = True"
| "spaced d (x # y # zs) = (snd x + d \<le> fst y \<and> spaced d (y # zs))"

text \<open>The invariant behind the order of delivery, for runs in which no send is rejected:
  the flag is up exactly while an invocation is suspended, an idle service has an empty
  queue, and what was handed to the endpoint, then the held appointment, then the queue,
  is the sequence \<open>E\<close> of the appointments enqueued so far.\<close>

definition fifoInv :: "VisaAppointment list \<Rightarrow> state \<Rightarrow> bool" where
  "fifoInv E s \<longleftrightarrow>
     (isProcessingQueue s \<longleftrightarrow> awaiting s \<noteq> NotRunning)
     \<and> (awaiting s = NotRunning \<longrightarrow> messageQueue s = [])
     \<and> (\<forall>due. awaiting s \<noteq> AwaitRetryPause due)
     \<and> delivered s @ held s @ messageQueue s = E"

text \<open>The invariant behind the rate bound, for the required delay \<open>d\<close>: the fulfilled
  sends are spaced, the last of them was fulfilled at \<open>lastMessageSentAt\<close>, each was
  called before it was fulfilled, and a send in progress or waiting for its timer starts no
  earlier than \<open>lastMessageSentAt + d\<close>.\<close>

definition gapInv :: "rat \<Rightarrow> state \<Rightarrow> bool" where
  "gapInv d s \<longleftrightarrow>
     spaced d (successes s)
     \<and> (successes s \<noteq> [] \<longrightarrow> snd (last (successes s)) = lastMessageSentAt s)
     \<and> (\<forall>x \<in> set (successes s). fst x \<le> snd x)
     \<and> (case awaiting s of
           AwaitSend a started \<Rightarrow> lastMessageSentAt s + d \<le> started \<and> started \<le> clock s
         | AwaitRateLimit a due \<Rightarrow> lastMessageSentAt s + d \<le> due
         | _ \<Rightarrow> True)"


text \<open>A configuration of one message per second and appointments told apart by their
  identifier, for evaluating concrete runs.\<close>

definition demoConfig :: config where
  "demoConfig = \<lparr> rateLimit = 60, retryAfter = 5000, channelId = ''@visa'', debug = True \<rparr>"

definition demoEvent :: "int \<Rightarrow> VisaAppointment" where
  "demoEvent n =
     \<lparr> ident = n, center = Some ''Ankara'', country_code = ''tr'', mission_code = ''de'',
       visa_category = Some ''Tourism'', visa_type = None, status = ''open'',
       last_available_date = None, tracking_count = Some 12,
       last_checked_at = ''2024-05-01T10:00:00Z'' \<rparr>"

text \<open>An appointment whose free-text fields hold each of the five markup characters.\<close>

definition markupEvent :: VisaAppointment where
  "markupEvent =
     \<lparr> ident = 9, center = Some ''A&B <VFS>'', country_code = ''a<b'', mission_code = ''de'',
       visa_category = Some ''Tom's'', visa_type = Some ''\"D\"'', status = ''open'',
       last_available_date = Some ''1>0'', tracking_count = None,
       last_checked_at = ''2024-05-01T10:00:00Z'' \<rparr>"

text \<open>An appointment whose optional fields are absent or empty; the object it arrives
  as; and an object that arrives without its country code.\<close>

definition bareEvent :: VisaAppointment where
  "bareEvent =
     \<lparr> ident = 3, center = None, country_code = ''tr'', mission_code = ''nl'',
       visa_category = None, visa_type = Some [], status = ''closed'',
       last_available_date = None, tracking_count = None, last_checked_at = ''now'' \<rparr>"

definition arrivedBare :: arrivedAppointment where
  "arrivedBare =
     \<lparr> ident = 3, center = None, country_code = Some ''tr'', mission_code = Some ''nl'',
       visa_category = None, visa_type = Some [], status = ''closed'',
       last_available_date = None, tracking_count = None, last_checked_at = ''now'' \<rparr>"

definition codelessEvent :: arrivedAppointment where
  "codelessEvent =
     \<lparr> ident = 4, center = Some ''Ankara'', country_code = None, mission_code = Some ''nl'',
       visa_category = Some ''Tourism'', visa_type = None, status = ''open'',
       last_available_date = None, tracking_count = Some 1,
       last_checked_at = ''2024-05-01T10:00:00Z'' \<rparr>"

section \<open>Properties of the formatter\<close>

lemma replaceAll_Nil: "replaceAll c r [] = []"
  by (simp add: replaceAll_def)

lemma replaceAll_Cons: "replaceAll c r (x # xs) = (if x = c then r else [x]) @ replaceAll c r xs"
  by (simp add: replaceAll_def)

lemma replaceAll_append: "replaceAll c r (xs @ ys) = replaceAll c r xs @ replaceAll c r ys"
  by (simp add: replaceAll_def)

lemma escape_chain_Cons:
  "replaceAll (CHR 0x27) ''&#39;''
     (replaceAll (CHR 0x22) ''&quot;''
       (replaceAll CHR ''>'' ''&gt;''
         (replaceAll CHR ''<'' ''&lt;''
           (replaceAll CHR ''&'' ''&amp;'' (x # xs)))))
   = escapeChar x @
     replaceAll (CHR 0x27) ''&#39;''
       (replaceAll (CHR 0x22) ''&quot;''
         (replaceAll CHR ''>'' ''&gt;''
           (replaceAll CHR ''<'' ''&lt;''
             (replaceAll CHR ''&'' ''&amp;'' xs))))"
  by (simp add: replaceAll_Cons replaceAll_append replaceAll_Nil escapeChar_def)

lemma escape_chain_spec:
  "replaceAll (CHR 0x27) ''&#39;''
     (replaceAll (CHR 0x22) ''&quot;''
       (replaceAll CHR ''>'' ''&gt;''
         (replaceAll CHR ''<'' ''&lt;''
           (replaceAll CHR ''&'' ''&amp;'' t))))
   = escapeSpec t"
proof (induction t)
  case Nil
  show ?case by (simp add: replaceAll_Nil escapeSpec_def)
next
  case (Cons x xs)
  have "escapeSpec (x # xs) = escapeChar x @ escapeSpec xs"
    by (simp add: escapeSpec_def)
  with Cons show ?case
    by (simp only: escape_chain_Cons)
qed

lemma escapeHtml_Some: "escapeHtml (Some t) = escapeSpec t"
  by (simp add: escapeHtml_def escape_chain_spec) (simp add: escapeSpec_def)

lemma escapeHtml_None: "escapeHtml None = []"
  by (simp add: escapeHtml_def)

lemma escapeChar_no_markup:
  "CHR ''<'' \<notin> set (escapeChar c) \<and> CHR ''>'' \<notin> set (escapeChar c)
   \<and> CHR 0x22 \<notin> set (escapeChar c) \<and> CHR 0x27 \<notin> set (escapeChar c)"
  by (simp add: escapeChar_def)

lemma escapeSpec_no_markup:
  "CHR ''<'' \<notin> set (escapeSpec t) \<and> CHR ''>'' \<notin> set (escapeSpec t)
   \<and> CHR 0x22 \<notin> set (escapeSpec t) \<and> CHR 0x27 \<notin> set (escapeSpec t)"
  using escapeChar_no_markup by (simp add: escapeSpec_def)

lemma escapeSpec_notSpecified: "escapeSpec notSpecified = notSpecified"
  by (simp add: escapeSpec_def notSpecified_def escapeChar_def)

lemma orDefault_absent: "x = None \<or> x = Some [] \<Longrightarrow> orDefault x d = d"
  by (auto simp: orDefault_def)

lemma orDefault_present: "x = Some v \<Longrightarrow> v \<noteq> [] \<Longrightarrow> orDefault x d = v"
  by (simp add: orDefault_def)

lemma formatMessage_escaped:
  "formatMessage rt a =
     ''<b>'' @ statusEmoji a @ lblTitle @ escapeSpec (case center a of None \<Rightarrow> [] | Some v \<Rightarrow> v)
     @ lblCountry @ escapeSpec (toUpperCase rt (country_code a))
     @ lblArrow @ escapeSpec (toUpperCase rt (mission_code a))
     @ lblCategory @ escapeSpec (orDefault (visa_category a) notSpecified)
     @ lblType @ escapeSpec (orDefault (visa_type a) notSpecified)
     @ lblStatus @ statusEmoji a @ '' '' @ escapeSpec (statusText a)
     @ lblDate @ escapeSpec (orDefault (last_available_date a) notSpecified)
     @ lblTracking @ trackingSlot a
     @ lblChecked @ escapeSpec (lastCheckedDate rt a)
     @ lblFooter"
proof -
  have "centerSlot a = escapeSpec (case center a of None \<Rightarrow> [] | Some v \<Rightarrow> v)"
    by (cases "center a") (simp_all add: centerSlot_def escapeHtml_None escapeHtml_Some escapeSpec_def)
  then show ?thesis
    by (simp only: formatMessage_def countrySlot_def missionSlot_def categorySlot_def typeSlot_def
          statusSlot_def dateSlot_def checkedSlot_def escapeHtml_Some)
qed

lemma formatMessageJS_present:
  assumes "country_code e = Some c" and "mission_code e = Some m"
  shows "formatMessageJS rt e =
     Inr (''<b>'' @ statusEmoji e @ lblTitle @ centerSlot e
          @ lblCountry @ escapeHtml (Some (toUpperCase rt c))
          @ lblArrow @ escapeHtml (Some (toUpperCase rt m))
          @ lblCategory @ categorySlot e
          @ lblType @ typeSlot e
          @ lblStatus @ statusEmoji e @ '' '' @ statusSlot e
          @ lblDate @ dateSlot e
          @ lblTracking @ trackingSlot e
          @ lblChecked @ checkedSlot rt e
          @ lblFooter)"
  using assms by (simp add: formatMessageJS_def methodToUpperCase_def)

lemma formatMessageJS_throws:
  "formatMessageJS rt e = Inl TypeError \<longleftrightarrow> country_code e = None \<or> mission_code e = None"
  by (cases "country_code e"; cases "mission_code e")
     (simp_all add: formatMessageJS_def methodToUpperCase_def)

lemma formatMessageJS_declared:
  assumes "declared e = Some a"
  shows "formatMessageJS rt e = Inr (formatMessage rt a)"
proof -
  from assms obtain c m where c: "country_code e = Some c" and m: "mission_code e = Some m"
    and a: "a = \<lparr> ident = ident e, center = center e, country_code = c, mission_code = m,
                  visa_category = visa_category e, visa_type = visa_type e, status = status e,
                  last_available_date = last_available_date e,
                  tracking_count = tracking_count e, last_checked_at = last_checked_at e \<rparr>"
    by (auto simp: declared_def split: option.splits)
  have "formatMessage rt a =
      ''<b>'' @ statusEmoji e @ lblTitle @ centerSlot e
          @ lblCountry @ escapeHtml (Some (toUpperCase rt c))
          @ lblArrow @ escapeHtml (Some (toUpperCase rt m))
          @ lblCategory @ categorySlot e
          @ lblType @ typeSlot e
          @ lblStatus @ statusEmoji e @ '' '' @ statusSlot e
          @ lblDate @ dateSlot e
          @ lblTracking @ trackingSlot e
          @ lblChecked @ checkedSlot rt e
          @ lblFooter"
    by (simp add: a formatMessage_def statusEmoji_def statusText_def centerSlot_def countrySlot_def
          missionSlot_def categorySlot_def typeSlot_def statusSlot_def dateSlot_def
          trackingSlot_def checkedSlot_def lastCheckedDate_def)
  with formatMessageJS_present[OF c m, of rt] show ?thesis by simp
qed

lemma placeholder_escaped: "escapeHtml (Some notSpecified) = notSpecified"
  by (simp add: escapeHtml_Some escapeSpec_notSpecified)

text \<open>Claim C8, amended. The five replacements of \<^verbatim>\<open>escapeHtml\<close> amount to the
  character-wise escaping \<open>escapeSpec\<close>: each of \<^verbatim>\<open>& < > " '\<close> becomes its entity and
  every other character stays, so the result holds none of \<^verbatim>\<open>< > " '\<close>. For every
  appointment the message is the labels with, between them, the escaping of the center's
  value, of the country code and of the mission code turned to upper case, and of the
  category, the type and the last available date, each of these three being the field's own
  value whenever that is present and not empty.\<close>

theorem free_text_fields_escaped:
  "formatMessage rt a =
     ''<b>'' @ statusEmoji a @ lblTitle @ escapeSpec (case center a of None \<Rightarrow> [] | Some v \<Rightarrow> v)
     @ lblCountry @ escapeSpec (toUpperCase rt (country_code a))
     @ lblArrow @ escapeSpec (toUpperCase rt (mission_code a))
     @ lblCategory @ escapeSpec (orDefault (visa_category a) notSpecified)
     @ lblType @ escapeSpec (orDefault (visa_type a) notSpecified)
     @ lblStatus @ statusEmoji a @ '' '' @ escapeSpec (statusText a)
     @ lblDate @ escapeSpec (orDefault (last_available_date a) notSpecified)
     @ lblTracking @ trackingSlot a
     @ lblChecked @ escapeSpec (lastCheckedDate rt a)
     @ lblFooter
   \<and> (\<forall>v d. v \<noteq> [] \<longrightarrow> orDefault (Some v) d = v)
   \<and> (\<forall>v. escapeHtml (Some v) = escapeSpec v
          \<and> escapeSpec v = concat (map escapeChar v)
          \<and> CHR ''<'' \<notin> set (escapeSpec v) \<and> CHR ''>'' \<notin> set (escapeSpec v)
          \<and> CHR 0x22 \<notin> set (escapeSpec v) \<and> CHR 0x27 \<notin> set (escapeSpec v))
   \<and> (\<forall>x. escapeChar x =
          (if x = CHR ''&'' then ''&amp;'' else if x = CHR ''<'' then ''&lt;''
           else if x = CHR ''>'' then ''&gt;'' else if x = CHR 0x22 then ''&quot;''
           else if x = CHR 0x27 then ''&#39;'' else [x]))"
proof -
  have "\<forall>v d. v \<noteq> [] \<longrightarrow> orDefault (Some v) d = v"
    by (simp add: orDefault_def)
  moreover have "\<forall>v. escapeHtml (Some v) = escapeSpec v
          \<and> escapeSpec v = concat (map escapeChar v)
          \<and> CHR ''<'' \<notin> set (escapeSpec v) \<and> CHR ''>'' \<notin> set (escapeSpec v)
          \<and> CHR 0x22 \<notin> set (escapeSpec v) \<and> CHR 0x27 \<notin> set (escapeSpec v)"
    using escapeSpec_no_markup by (simp add: escapeHtml_Some) (simp add: escapeSpec_def)
  moreover have "\<forall>x. escapeChar x =
          (if x = CHR ''&'' then ''&amp;'' else if x = CHR ''<'' then ''&lt;''
           else if x = CHR ''>'' then ''&gt;'' else if x = CHR 0x22 then ''&quot;''
           else if x = CHR 0x27 then ''&#39;'' else [x])"
    by (simp add: escapeChar_def)
  ultimately show ?thesis using formatMessage_escaped[of rt a] by blast
qed

theorem free_text_fields_escaped_witness:
  "formatMessage asciiRuntime markupEvent =
     ''<b>'' @ emojiOpen @ lblTitle @ ''A&amp;B &lt;VFS&gt;''
     @ lblCountry @ ''A&lt;B'' @ lblArrow @ ''DE''
     @ lblCategory @ ''Tom&#39;s''
     @ lblType @ ''&quot;D&quot;''
     @ lblStatus @ emojiOpen @ '' '' @ textOpen
     @ lblDate @ ''1&gt;0''
     @ lblTracking @ ''0''
     @ lblChecked @ ''01.05.2024 13:00:00''
     @ lblFooter
   \<and> formatMessage asciiRuntime (demoEvent 1) =
     ''<b>'' @ emojiOpen @ lblTitle @ ''Ankara''
     @ lblCountry @ ''TR'' @ lblArrow @ ''DE''
     @ lblCategory @ ''Tourism''
     @ lblType @ notSpecified
     @ lblStatus @ emojiOpen @ '' '' @ textOpen
     @ lblDate @ notSpecified
     @ lblTracking @ ''12''
     @ lblChecked @ ''01.05.2024 13:00:00''
     @ lblFooter"
proof -
  have ne: "''Tom's'' \<noteq> []" "''\"D\"'' \<noteq> []" "''1>0'' \<noteq> []" "''Tourism'' \<noteq> []"
    by simp_all
  note t = free_text_fields_escaped[of asciiRuntime markupEvent]
  from t ne have p: "orDefault (Some ''Tom's'') notSpecified = ''Tom's''"
    "orDefault (Some ''\"D\"'') notSpecified = ''\"D\"''"
    "orDefault (Some ''1>0'') notSpecified = ''1>0''"
    "orDefault (Some ''Tourism'') notSpecified = ''Tourism''"
    by blast+
  have ab: "orDefault None notSpecified = notSpecified" by (simp add: orDefault_def)
  have ev: "\<And>v. escapeSpec v = concat (map escapeChar v)" using t by blast
  have m: "formatMessage asciiRuntime markupEvent =
     ''<b>'' @ emojiOpen @ lblTitle @ ''A&amp;B &lt;VFS&gt;''
     @ lblCountry @ ''A&lt;B'' @ lblArrow @ ''DE''
     @ lblCategory @ ''Tom&#39;s''
     @ lblType @ ''&quot;D&quot;''
     @ lblStatus @ emojiOpen @ '' '' @ textOpen
     @ lblDate @ ''1&gt;0''
     @ lblTracking @ ''0''
     @ lblChecked @ ''01.05.2024 13:00:00''
     @ lblFooter"
    using t p
    by (simp add: markupEvent_def asciiRuntime_def asciiUpper_def ev escapeChar_def
          statusEmoji_def statusText_def textOpen_def trackingSlot_def numberToString_def
          digitChar_def lastCheckedDate_def)
  have d: "formatMessage asciiRuntime (demoEvent 1) =
     ''<b>'' @ emojiOpen @ lblTitle @ ''Ankara''
     @ lblCountry @ ''TR'' @ lblArrow @ ''DE''
     @ lblCategory @ ''Tourism''
     @ lblType @ notSpecified
     @ lblStatus @ emojiOpen @ '' '' @ textOpen
     @ lblDate @ notSpecified
     @ lblTracking @ ''12''
     @ lblChecked @ ''01.05.2024 13:00:00''
     @ lblFooter"
    using free_text_fields_escaped[of asciiRuntime "demoEvent 1"] p ab
    by (simp add: demoEvent_def asciiRuntime_def asciiUpper_def ev escapeChar_def
          statusEmoji_def statusText_def textOpen_def trackingSlot_def numberToString_def
          digitChar_def lastCheckedDate_def notSpecified_def)
  from m d show ?thesis by blast
qed

text \<open>The claim as written has every other character of every free-text field unaltered.
  The country code \<^verbatim>\<open>a<b\<close> is rendered \<^verbatim>\<open>A&lt;B\<close>: its letters are altered.\<close>

theorem country_code_counterexample:
  "countrySlot asciiRuntime markupEvent = ''A&lt;B''
   \<and> escapeSpec (country_code markupEvent) = ''a&lt;b''
   \<and> countrySlot asciiRuntime markupEvent \<noteq> escapeSpec (country_code markupEvent)"
  by (simp add: countrySlot_def escapeHtml_Some markupEvent_def asciiRuntime_def asciiUpper_def
        escapeSpec_def escapeChar_def)

text \<open>Claim C9, amended. For an object as it arrives: an absent or empty category, type or
  last available date is rendered as the placeholder \<open>notSpecified\<close>, which is not
  empty; an absent or empty center is rendered as the empty text (the guard of
  \<^verbatim>\<open>escapeHtml\<close>). With the country code and the mission code present the formatter
  returns the message, the labels with these texts between them; it throws exactly when
  one of the two codes is absent. On an object of the declared shape it therefore returns,
  and what it returns is \<open>formatMessage\<close> of the appointment.\<close>

theorem absent_fields_rendered:
  "(visa_category e = None \<or> visa_category e = Some [] \<longrightarrow> categorySlot e = notSpecified)
   \<and> (visa_type e = None \<or> visa_type e = Some [] \<longrightarrow> typeSlot e = notSpecified)
   \<and> (last_available_date e = None \<or> last_available_date e = Some [] \<longrightarrow> dateSlot e = notSpecified)
   \<and> (center e = None \<or> center e = Some [] \<longrightarrow> centerSlot e = [])
   \<and> notSpecified \<noteq> []
   \<and> (\<forall>c m. country_code e = Some c \<and> mission_code e = Some m \<longrightarrow>
         formatMessageJS rt e =
           Inr (''<b>'' @ statusEmoji e @ lblTitle @ centerSlot e
                @ lblCountry @ escapeHtml (Some (toUpperCase rt c))
                @ lblArrow @ escapeHtml (Some (toUpperCase rt m))
                @ lblCategory @ categorySlot e
                @ lblType @ typeSlot e
                @ lblStatus @ statusEmoji e @ '' '' @ statusSlot e
                @ lblDate @ dateSlot e
                @ lblTracking @ trackingSlot e
                @ lblChecked @ checkedSlot rt e
                @ lblFooter))
   \<and> (formatMessageJS rt e = Inl TypeError \<longleftrightarrow> country_code e = None \<or> mission_code e = None)
   \<and> (\<forall>a. declared e = Some a \<longrightarrow> formatMessageJS rt e = Inr (formatMessage rt a))"
proof -
  have "visa_category e = None \<or> visa_category e = Some [] \<longrightarrow> categorySlot e = notSpecified"
    by (auto simp: categorySlot_def orDefault_absent placeholder_escaped)
  moreover have "visa_type e = None \<or> visa_type e = Some [] \<longrightarrow> typeSlot e = notSpecified"
    by (auto simp: typeSlot_def orDefault_absent placeholder_escaped)
  moreover have "last_available_date e = None \<or> last_available_date e = Some [] \<longrightarrow> dateSlot e = notSpecified"
    by (auto simp: dateSlot_def orDefault_absent placeholder_escaped)
  moreover have "center e = None \<or> center e = Some [] \<longrightarrow> centerSlot e = []"
    by (auto simp: centerSlot_def escapeHtml_def)
  moreover have "notSpecified \<noteq> []" by (simp add: notSpecified_def)
  moreover note formatMessageJS_present[of e _ _ rt] formatMessageJS_throws[of rt e]
    formatMessageJS_declared[of e _ rt]
  ultimately show ?thesis by blast
qed

theorem absent_fields_rendered_witness:
  "formatMessageJS asciiRuntime arrivedBare =
     Inr (''<b>'' @ emojiUnknown @ lblTitle @ []
       @ lblCountry @ ''TR'' @ lblArrow @ ''NL''
       @ lblCategory @ notSpecified
       @ lblType @ notSpecified
       @ lblStatus @ emojiUnknown @ '' '' @ ''closed''
       @ lblDate @ notSpecified
       @ lblTracking @ ''0''
       @ lblChecked @ ''Invalid Date''
       @ lblFooter)
   \<and> declared arrivedBare = Some bareEvent
   \<and> formatMessageJS asciiRuntime arrivedBare = Inr (formatMessage asciiRuntime bareEvent)"
proof -
  note t = absent_fields_rendered[of arrivedBare asciiRuntime]
  have c: "visa_category arrivedBare = None \<or> visa_category arrivedBare = Some []"
    and ty: "visa_type arrivedBare = None \<or> visa_type arrivedBare = Some []"
    and d: "last_available_date arrivedBare = None \<or> last_available_date arrivedBare = Some []"
    and m: "center arrivedBare = None \<or> center arrivedBare = Some []"
    and codes: "country_code arrivedBare = Some ''tr'' \<and> mission_code arrivedBare = Some ''nl''"
    and dc: "declared arrivedBare = Some bareEvent"
    by (simp_all add: arrivedBare_def bareEvent_def declared_def)
  from t c ty d m have slots: "categorySlot arrivedBare = notSpecified"
    "typeSlot arrivedBare = notSpecified" "dateSlot arrivedBare = notSpecified"
    "centerSlot arrivedBare = []"
    by blast+
  from t codes have "formatMessageJS asciiRuntime arrivedBare =
           Inr (''<b>'' @ statusEmoji arrivedBare @ lblTitle @ centerSlot arrivedBare
                @ lblCountry @ escapeHtml (Some (toUpperCase asciiRuntime ''tr''))
                @ lblArrow @ escapeHtml (Some (toUpperCase asciiRuntime ''nl''))
                @ lblCategory @ categorySlot arrivedBare
                @ lblType @ typeSlot arrivedBare
                @ lblStatus @ statusEmoji arrivedBare @ '' '' @ statusSlot arrivedBare
                @ lblDate @ dateSlot arrivedBare
                @ lblTracking @ trackingSlot arrivedBare
                @ lblChecked @ checkedSlot asciiRuntime arrivedBare
                @ lblFooter)"
    by blast
  then have "formatMessageJS asciiRuntime arrivedBare =
     Inr (''<b>'' @ emojiUnknown @ lblTitle @ []
       @ lblCountry @ ''TR'' @ lblArrow @ ''NL''
       @ lblCategory @ notSpecified
       @ lblType @ notSpecified
       @ lblStatus @ emojiUnknown @ '' '' @ ''closed''
       @ lblDate @ notSpecified
       @ lblTracking @ ''0''
       @ lblChecked @ ''Invalid Date''
       @ lblFooter)"
    by (simp add: slots)
       (simp add: arrivedBare_def asciiRuntime_def asciiUpper_def statusSlot_def checkedSlot_def
          escapeHtml_Some escapeSpec_def escapeChar_def statusEmoji_def statusText_def
          trackingSlot_def numberToString_def digitChar_def lastCheckedDate_def)
  moreover from t dc have "formatMessageJS asciiRuntime arrivedBare = Inr (formatMessage asciiRuntime bareEvent)"
    by blast
  ultimately show ?thesis using dc by blast
qed

text \<open>The claim as written has a placeholder for an absent center, and a formatter that
  never fails. With no center the text after the label \<^verbatim>\<open>Merkez:\<close> is empty: the next
  line follows at once. With no country code the formatter throws.\<close>

theorem absent_center_counterexample:
  "center bareEvent = None
   \<and> centerSlot bareEvent = []
   \<and> (\<exists>rest. formatMessage asciiRuntime bareEvent =
         ''<b>'' @ emojiUnknown @ lblTitle @ lblCountry @ rest)
   \<and> country_code codelessEvent = None
   \<and> formatMessageJS asciiRuntime codelessEvent = Inl TypeError"
  by (simp add: bareEvent_def formatMessage_def centerSlot_def escapeHtml_def statusEmoji_def
        codelessEvent_def formatMessageJS_def methodToUpperCase_def)

section \<open>Properties of the dispatcher\<close>


lemma startsWith_iff: "startsWith s n \<longleftrightarrow> (\<exists>q. s = n @ q)"
  by (induction s n rule: startsWith.induct) auto

lemma stringIncludes_iff: "stringIncludes s n \<longleftrightarrow> (\<exists>p q. s = p @ n @ q)"
proof (induction s)
  case Nil
  show ?case by auto
next
  case (Cons c cs)
  show ?case
  proof
    assume "stringIncludes (c # cs) n"
    then consider "startsWith (c # cs) n" | "stringIncludes cs n" by auto
    then show "\<exists>p q. c # cs = p @ n @ q"
    proof cases
      case 1
      then obtain q where "c # cs = n @ q" by (auto simp: startsWith_iff)
      then have "c # cs = [] @ n @ q" by simp
      then show ?thesis by blast
    next
      case 2
      with Cons obtain p q where "cs = p @ n @ q" by blast
      then have "c # cs = (c # p) @ n @ q" by simp
      then show ?thesis by blast
    qed
  next
    assume "\<exists>p q. c # cs = p @ n @ q"
    then obtain p q where pq: "c # cs = p @ n @ q" by blast
    show "stringIncludes (c # cs) n"
    proof (cases p)
      case Nil
      with pq have "startsWith (c # cs) n" by (auto simp: startsWith_iff)
      then show ?thesis by simp
    next
      case (Cons x p')
      with pq have "cs = p' @ n @ q" by simp
      with Cons.IH have "stringIncludes cs n" by blast
      then show ?thesis by simp
    qed
  qed
qed

lemma sendStart_fields:
  "lastMessageSentAt (sendStart cfg rt a s) = lastMessageSentAt s"
  "messageQueue (sendStart cfg rt a s) = messageQueue s"
  "isProcessingQueue (sendStart cfg rt a s) = isProcessingQueue s"
  "awaiting (sendStart cfg rt a s) = AwaitSend a (clock s)"
  "clock (sendStart cfg rt a s) = clock s"
  "successes (sendStart cfg rt a s) = successes s"
  "outbox (sendStart cfg rt a s) = outbox s @
     [\<lparr>callTime = clock s, callChat = channelId cfg, callText = formatMessage rt a, callAppointment = a\<rparr>]"
  by (simp_all add: sendStart_def debugLog_def Let_def)

lemma loopHead_frame:
  "lastMessageSentAt (loopHead cfg rt s) = lastMessageSentAt s"
  "clock (loopHead cfg rt s) = clock s"
  "successes (loopHead cfg rt s) = successes s"
  by (simp_all add: loopHead_def sendStart_fields debugLog_def Let_def split: list.splits option.splits)


lemma loopHead_Cons:
  assumes "messageQueue s = b # rest"
  shows "messageQueue (loopHead cfg rt s) = rest"
    and "isProcessingQueue (loopHead cfg rt s) = isProcessingQueue s"
    and "(awaiting (loopHead cfg rt s) = AwaitSend b (clock s) \<and>
          outbox (loopHead cfg rt s) = outbox s @
            [\<lparr>callTime = clock s, callChat = channelId cfg, callText = formatMessage rt b, callAppointment = b\<rparr>])
         \<or> ((\<exists>due. awaiting (loopHead cfg rt s) = AwaitRateLimit b due) \<and> outbox (loopHead cfg rt s) = outbox s)"
  using assms
  by (simp_all add: loopHead_def sendStart_fields debugLog_def Let_def split: option.splits)

text \<open>Claim C10. A step in which the pending send is rejected, whether the appointment is
  then dropped or put back, leaves \<open>lastMessageSentAt\<close> as it was; a fulfilled send sets
  it to the time of fulfilment; no other step changes it.\<close>

theorem failed_send_keeps_clock_of_last_success:
  assumes "step cfg rt s act = Some s'"
  shows "(\<forall>t e. act = SendRejected t e \<longrightarrow> lastMessageSentAt s' = lastMessageSentAt s)
       \<and> (\<forall>t. act = SendResolved t \<longrightarrow> lastMessageSentAt s' = t)
       \<and> ((\<forall>t. act \<noteq> SendResolved t) \<longrightarrow> lastMessageSentAt s' = lastMessageSentAt s)"
  using assms
  by (cases act)
     (auto simp: step_def sendNotification_def processQueue_def loopHead_frame sendStart_fields
        afterSendResolved_def afterSendRejected_def afterRetryPause_def debugLog_def errorLog_def Let_def
        split: if_splits suspension.splits)

lemma loopHead_running:
  "isProcessingQueue s \<Longrightarrow>
     isProcessingQueue (loopHead cfg rt s) \<longleftrightarrow> awaiting (loopHead cfg rt s) \<noteq> NotRunning"
  by (simp add: loopHead_def sendStart_fields debugLog_def Let_def split: list.splits option.splits)

lemma step_running_flag:
  assumes "isProcessingQueue s \<longleftrightarrow> awaiting s \<noteq> NotRunning"
    and "step cfg rt s act = Some s'"
  shows "isProcessingQueue s' \<longleftrightarrow> awaiting s' \<noteq> NotRunning"
proof (cases act)
  case (Enqueue t a)
  with assms show ?thesis
    by (auto simp: step_def sendNotification_def processQueue_def loopHead_running Let_def
          split: if_splits)
next
  case (TimerFired t)
  with assms show ?thesis
    by (auto simp: step_def sendStart_fields afterRetryPause_def Let_def
          split: if_splits suspension.splits)
next
  case (SendResolved t)
  with assms show ?thesis
    by (auto simp: step_def afterSendResolved_def loopHead_running debugLog_def Let_def
          split: if_splits suspension.splits)
next
  case (SendRejected t e)
  with assms show ?thesis
    by (auto simp: step_def afterSendRejected_def loopHead_running debugLog_def errorLog_def Let_def
          split: if_splits suspension.splits)
qed

lemma run_invariant:
  assumes "run cfg rt s acts = Some s'" and "P s"
    and "\<And>u act u'. P u \<Longrightarrow> step cfg rt u act = Some u' \<Longrightarrow> P u'"
  shows "P s'"
  using assms(1,2)
proof (induction acts arbitrary: s)
  case Nil
  then show ?case by simp
next
  case (Cons act acts)
  from Cons.prems(1) obtain u where u: "step cfg rt s act = Some u" and r: "run cfg rt u acts = Some s'"
    by (auto split: option.splits)
  from assms(3)[OF Cons.prems(2) u] have "P u" .
  with Cons.IH r show ?case by blast
qed

lemma running_flag:
  assumes "run cfg rt (initial t0) acts = Some s"
  shows "isProcessingQueue s \<longleftrightarrow> awaiting s \<noteq> NotRunning"
proof -
  have "isProcessingQueue (initial t0) \<longleftrightarrow> awaiting (initial t0) \<noteq> NotRunning"
    by (simp add: initial_def)
  with assms show ?thesis
    by (rule run_invariant[where P = "\<lambda>u. isProcessingQueue u \<longleftrightarrow> awaiting u \<noteq> NotRunning"])
       (rule step_running_flag)
qed

lemma loopHead_fifo:
  assumes "isProcessingQueue s" and "delivered s @ messageQueue s = E"
  shows "fifoInv E (loopHead cfg rt s)"
  using assms
  by (auto simp: fifoInv_def loopHead_def sendStart_def debugLog_def delivered_def held_def Let_def
        split: list.splits option.splits)

lemma step_fifo:
  assumes "fifoInv E s" and "step cfg rt s act = Some s'" and "\<not> isRejection act"
  shows "fifoInv (E @ enqueued [act]) s'"
proof (cases act)
  case (Enqueue t a)
  show ?thesis
  proof (cases "isProcessingQueue s")
    case True
    with assms Enqueue show ?thesis
      by (auto simp: fifoInv_def step_def sendNotification_def delivered_def held_def Let_def
            split: if_splits)
  next
    case False
    with assms(1) have idle: "awaiting s = NotRunning" "messageQueue s = []" "delivered s = E"
      by (auto simp: fifoInv_def held_def)
    let ?u = "s\<lparr>clock := t, messageQueue := messageQueue s @ [a], isProcessingQueue := True\<rparr>"
    have "fifoInv (E @ [a]) (loopHead cfg rt ?u)"
      by (rule loopHead_fifo) (simp_all add: idle delivered_def flip: idle(3))
    moreover from assms(2) Enqueue False idle have "s' = loopHead cfg rt ?u"
      by (simp add: step_def sendNotification_def processQueue_def Let_def split: if_splits)
    ultimately show ?thesis using Enqueue by simp
  qed
next
  case (TimerFired t)
  with assms show ?thesis
    by (auto simp: fifoInv_def step_def sendStart_def debugLog_def afterRetryPause_def
          delivered_def held_def Let_def split: if_splits suspension.splits)
next
  case (SendResolved t)
  from assms(2) SendResolved obtain a started where aw: "awaiting s = AwaitSend a started"
    and s': "s' = afterSendResolved cfg rt a started (s\<lparr>clock := t\<rparr>)"
    by (auto simp: step_def Let_def split: if_splits suspension.splits)
  from assms(1) aw have run: "isProcessingQueue s" and eq: "delivered s @ messageQueue s = E"
    by (auto simp: fifoInv_def held_def)
  have "fifoInv E s'"
    unfolding s' afterSendResolved_def Let_def
    by (rule loopHead_fifo) (simp_all add: run eq debugLog_def delivered_def flip: eq)
  with SendResolved show ?thesis by simp
next
  case (SendRejected t e)
  with assms(3) show ?thesis by simp
qed

lemma run_fifo:
  assumes "run cfg rt s acts = Some s'" and "fifoInv E s" and "\<forall>act \<in> set acts. \<not> isRejection act"
  shows "fifoInv (E @ enqueued acts) s'"
  using assms
proof (induction acts arbitrary: s E)
  case Nil
  then show ?case by simp
next
  case (Cons act acts)
  from Cons.prems(1) obtain u where u: "step cfg rt s act = Some u" and r: "run cfg rt u acts = Some s'"
    by (auto split: option.splits)
  from Cons.prems(3) have na: "\<not> isRejection act" and nr: "\<forall>x \<in> set acts. \<not> isRejection x"
    by auto
  from step_fifo[OF Cons.prems(2) u na] have "fifoInv (E @ enqueued [act]) u" .
  from Cons.IH[OF r this nr] have "fifoInv ((E @ enqueued [act]) @ enqueued acts) s'" .
  moreover have "enqueued [act] @ enqueued acts = enqueued (act # acts)"
    by (cases act) simp_all
  ultimately show ?case by simp
qed

text \<open>Claim C1. In every run from the initial state in which no send is rejected, the
  appointments handed to the endpoint, followed by the one held by the rate limiter and by
  the queue, are the enqueued appointments in the order of the calls: the endpoint receives
  them in exactly that order, and once the service is idle it has received all of them.\<close>

theorem fifo_delivery:
  assumes "run cfg rt (initial t0) acts = Some s"
    and "\<forall>act \<in> set acts. \<not> isRejection act"
  shows "delivered s @ held s @ messageQueue s = enqueued acts
       \<and> (awaiting s = NotRunning \<longrightarrow> delivered s = enqueued acts)"
proof -
  have "fifoInv [] (initial t0)"
    by (simp add: fifoInv_def initial_def delivered_def held_def)
  from run_fifo[OF assms(1) this assms(2)] show ?thesis
    by (auto simp: fifoInv_def held_def)
qed

lemmas dispatcher_defs =
  step_def sendNotification_def processQueue_def loopHead_def sendStart_def requiredDelay_def
  afterSendResolved_def afterSendRejected_def afterRetryPause_def debugLog_def errorLog_def
  isRetriable_def initial_def demoConfig_def Let_def

theorem fifo_delivery_witness:
  "\<exists>s. run demoConfig asciiRuntime (initial 5000)
          [Enqueue 5000 (demoEvent 1), Enqueue 5001 (demoEvent 2), SendResolved 5100,
           TimerFired 6100, SendResolved 6150] = Some s
       \<and> awaiting s = NotRunning
       \<and> delivered s = [demoEvent 1, demoEvent 2]"
proof -
  let ?acts = "[Enqueue 5000 (demoEvent 1), Enqueue 5001 (demoEvent 2), SendResolved 5100,
           TimerFired 6100, SendResolved 6150]"
  have "\<exists>s. run demoConfig asciiRuntime (initial 5000) ?acts = Some s \<and> awaiting s = NotRunning"
    by (simp add: dispatcher_defs)
  then obtain s where r: "run demoConfig asciiRuntime (initial 5000) ?acts = Some s"
    and idle: "awaiting s = NotRunning" by blast
  have nr: "\<forall>act \<in> set ?acts. \<not> isRejection act" by simp
  from fifo_delivery[OF r nr] idle have "delivered s = enqueued ?acts" by blast
  with r idle show ?thesis by simp
qed

theorem failed_send_witness:
  "\<exists>s s'. run demoConfig asciiRuntime (initial 5000) [Enqueue 5000 (demoEvent 1), SendResolved 5100,
             Enqueue 7000 (demoEvent 2)] = Some s
     \<and> lastMessageSentAt s = 5100
     \<and> step demoConfig asciiRuntime s (SendRejected 7100 (ErrorObject ''ETIMEDOUT'')) = Some s'
     \<and> lastMessageSentAt s' = 5100"
proof -
  let ?acts = "[Enqueue 5000 (demoEvent 1), SendResolved 5100, Enqueue 7000 (demoEvent 2)]"
  have "\<exists>s. run demoConfig asciiRuntime (initial 5000) ?acts = Some s \<and> lastMessageSentAt s = 5100
     \<and> (\<exists>s'. step demoConfig asciiRuntime s (SendRejected 7100 (ErrorObject ''ETIMEDOUT'')) = Some s')"
    by (simp add: dispatcher_defs)
  then obtain s s' where r: "run demoConfig asciiRuntime (initial 5000) ?acts = Some s"
    and l: "lastMessageSentAt s = 5100"
    and st: "step demoConfig asciiRuntime s (SendRejected 7100 (ErrorObject ''ETIMEDOUT'')) = Some s'"
    by blast
  from failed_send_keeps_clock_of_last_success[OF st] l have "lastMessageSentAt s' = 5100" by simp
  with r l st show ?thesis by blast
qed


lemma spaced_snoc:
  "spaced d (xs @ [y]) \<longleftrightarrow> spaced d xs \<and> (xs \<noteq> [] \<longrightarrow> snd (last xs) + d \<le> fst y)"
  by (induction d xs rule: spaced.induct) auto

lemma spaced_nth:
  "spaced d xs \<Longrightarrow> Suc i < length xs \<Longrightarrow> snd (xs ! i) + d \<le> fst (xs ! Suc i)"
proof (induction d xs arbitrary: i rule: spaced.induct)
  case (3 d x y zs)
  then show ?case by (cases i) auto
qed auto

lemma requiredDelay_value:
  "rateLimit cfg \<noteq> 0 \<Longrightarrow> requiredDelay cfg = Some (60000 / rateLimit cfg)"
  by (simp add: requiredDelay_def)

lemma rate_limiter_wait:
  assumes "requiredDelay cfg = Some d" and "messageQueue u = b # rest"
  shows "clock u - lastMessageSentAt u < d \<longrightarrow>
           awaiting (loopHead cfg rt u) = AwaitRateLimit b (clock u + (d - (clock u - lastMessageSentAt u)))
           \<and> outbox (loopHead cfg rt u) = outbox u"
    and "\<not> clock u - lastMessageSentAt u < d \<longrightarrow> awaiting (loopHead cfg rt u) = AwaitSend b (clock u)"
  using assms by (simp_all add: loopHead_def sendStart_def debugLog_def Let_def)

lemma loopHead_gap:
  assumes "requiredDelay cfg = Some d"
    and "spaced d (successes s)"
    and "successes s \<noteq> [] \<longrightarrow> snd (last (successes s)) = lastMessageSentAt s"
    and "\<forall>x \<in> set (successes s). fst x \<le> snd x"
  shows "gapInv d (loopHead cfg rt s)"
  using assms
  by (auto simp: gapInv_def loopHead_def sendStart_def debugLog_def Let_def split: list.splits)

lemma step_gap:
  assumes "requiredDelay cfg = Some d" and "gapInv d s" and "step cfg rt s act = Some s'"
  shows "gapInv d s'"
proof -
  from assms(2) have sp: "spaced d (successes s)"
    and la: "successes s \<noteq> [] \<longrightarrow> snd (last (successes s)) = lastMessageSentAt s"
    and le: "\<forall>x \<in> set (successes s). fst x \<le> snd x"
    by (auto simp: gapInv_def)
  show ?thesis
  proof (cases act)
    case (Enqueue t a)
    show ?thesis
    proof (cases "isProcessingQueue s")
      case True
      with assms Enqueue show ?thesis
        by (auto simp: gapInv_def step_def sendNotification_def Let_def
              split: if_splits suspension.splits)
    next
      case False
      with assms(3) Enqueue have
        "s' = loopHead cfg rt (s\<lparr>clock := t, messageQueue := messageQueue s @ [a], isProcessingQueue := True\<rparr>)"
        by (simp add: step_def sendNotification_def processQueue_def Let_def split: if_splits)
      moreover have "gapInv d (loopHead cfg rt (s\<lparr>clock := t, messageQueue := messageQueue s @ [a], isProcessingQueue := True\<rparr>))"
        by (rule loopHead_gap[OF assms(1)]) (use sp la le in simp_all)
      ultimately show ?thesis by simp
    qed
  next
    case (TimerFired t)
    with assms show ?thesis
      by (auto simp: gapInv_def step_def sendStart_def debugLog_def afterRetryPause_def Let_def
            split: if_splits suspension.splits)
  next
    case (SendResolved t)
    from assms(3) SendResolved obtain a started where aw: "awaiting s = AwaitSend a started"
      and tc: "clock s \<le> t"
      and s': "s' = afterSendResolved cfg rt a started (s\<lparr>clock := t\<rparr>)"
      by (auto simp: step_def Let_def split: if_splits suspension.splits)
    from assms(2) aw have st: "lastMessageSentAt s + d \<le> started" "started \<le> clock s"
      by (auto simp: gapInv_def)
    show ?thesis
      unfolding s' afterSendResolved_def Let_def
      by (rule loopHead_gap[OF assms(1)])
         (use sp la le st tc in \<open>auto simp: debugLog_def spaced_snoc\<close>)
  next
    case (SendRejected t e)
    from assms(3) SendRejected obtain a started where aw: "awaiting s = AwaitSend a started"
      and s': "s' = afterSendRejected cfg rt a e (s\<lparr>clock := t\<rparr>)"
      by (auto simp: step_def Let_def split: if_splits suspension.splits)
    show ?thesis
    proof (cases "isRetriable (errorMessage e)")
      case True
      with sp la le show ?thesis
        by (simp add: s' afterSendRejected_def gapInv_def debugLog_def errorLog_def Let_def)
    next
      case False
      then have "s' = loopHead cfg rt (errorLog (ErrFormatSkipped (ident a))
          (errorLog (ErrNotification (ident a) (errorMessage e)) (s\<lparr>clock := t\<rparr>)))"
        by (simp add: s' afterSendRejected_def Let_def)
      moreover have "gapInv d (loopHead cfg rt (errorLog (ErrFormatSkipped (ident a))
          (errorLog (ErrNotification (ident a) (errorMessage e)) (s\<lparr>clock := t\<rparr>))))"
        by (rule loopHead_gap[OF assms(1)]) (use sp la le in \<open>simp_all add: errorLog_def\<close>)
      ultimately show ?thesis by simp
    qed
  qed
qed

text \<open>Claim C2. With a rate other than zero the required delay is \<open>60000 / rateLimit\<close>
  milliseconds, and in every run from the initial state each fulfilled send was called at
  least that long after the fulfilled send before it was completed (so their gap is at least
  the required delay, from completion to call, and hence from call to call and from
  completion to completion). The wait is the one of the loop: with an appointment to pop
  and less than the required delay since \<open>lastMessageSentAt\<close>, it calls nothing and
  sets the timer to the remaining difference. Timers fire no earlier than they are due and the clock does
  not go back: these are the conditions under which \<open>step\<close> lets an action happen.\<close>

theorem rate_bound:
  assumes "rateLimit cfg \<noteq> 0" and "run cfg rt (initial t0) acts = Some s"
  shows "requiredDelay cfg = Some (60000 / rateLimit cfg)
       \<and> (\<forall>i. Suc i < length (successes s) \<longrightarrow>
             snd (successes s ! i) + 60000 / rateLimit cfg \<le> fst (successes s ! Suc i))
       \<and> (\<forall>x \<in> set (successes s). fst x \<le> snd x)
       \<and> (\<forall>u b rest. messageQueue u = b # rest
               \<and> clock u - lastMessageSentAt u < 60000 / rateLimit cfg \<longrightarrow>
             awaiting (loopHead cfg rt u) =
               AwaitRateLimit b (clock u + (60000 / rateLimit cfg - (clock u - lastMessageSentAt u)))
             \<and> outbox (loopHead cfg rt u) = outbox u)"
proof -
  let ?d = "60000 / rateLimit cfg"
  have rd: "requiredDelay cfg = Some ?d" using assms(1) by (rule requiredDelay_value)
  have "gapInv ?d (initial t0)" by (simp add: gapInv_def initial_def)
  with assms(2) have "gapInv ?d s"
    by (rule run_invariant[where P = "gapInv ?d"]) (rule step_gap[OF rd])
  then have "\<forall>i. Suc i < length (successes s) \<longrightarrow>
             snd (successes s ! i) + ?d \<le> fst (successes s ! Suc i)"
    and "\<forall>x \<in> set (successes s). fst x \<le> snd x"
    by (auto simp: gapInv_def spaced_nth)
  moreover have "\<forall>u b rest. messageQueue u = b # rest \<and> clock u - lastMessageSentAt u < ?d \<longrightarrow>
             awaiting (loopHead cfg rt u) =
               AwaitRateLimit b (clock u + (?d - (clock u - lastMessageSentAt u)))
             \<and> outbox (loopHead cfg rt u) = outbox u"
    using rate_limiter_wait(1)[OF rd] by blast
  ultimately show ?thesis using rd by blast
qed

theorem rate_bound_witness:
  "\<exists>s. run demoConfig asciiRuntime (initial 5000)
          [Enqueue 5000 (demoEvent 1), Enqueue 5001 (demoEvent 2), SendResolved 5100,
           TimerFired 6100, SendResolved 6150] = Some s
       \<and> successes s = [(5000, 5100), (6100, 6150)]
       \<and> requiredDelay demoConfig = Some 1000
       \<and> snd (successes s ! 0) + 1000 \<le> fst (successes s ! 1)"
proof -
  let ?acts = "[Enqueue 5000 (demoEvent 1), Enqueue 5001 (demoEvent 2), SendResolved 5100,
           TimerFired 6100, SendResolved 6150]"
  have "\<exists>s. run demoConfig asciiRuntime (initial 5000) ?acts = Some s
          \<and> successes s = [(5000, 5100), (6100, 6150)]"
    by (simp add: dispatcher_defs)
  then obtain s where r: "run demoConfig asciiRuntime (initial 5000) ?acts = Some s"
    and su: "successes s = [(5000, 5100), (6100, 6150)]" by blast
  have nz: "rateLimit demoConfig \<noteq> 0" by (simp add: demoConfig_def)
  have d: "60000 / rateLimit demoConfig = 1000" by (simp add: demoConfig_def)
  from rate_bound[OF nz r] su d
  have "requiredDelay demoConfig = Some 1000"
    and "snd (successes s ! 0) + 1000 \<le> fst (successes s ! Suc 0)" by auto
  with r su show ?thesis by auto
qed

lemma rejected_step:
  assumes "awaiting s = AwaitSend a started" and "clock s \<le> t"
  shows "step cfg rt s (SendRejected t e) = Some (afterSendRejected cfg rt a e (s\<lparr>clock := t\<rparr>))"
  using assms by (simp add: step_def Let_def)

lemma requeue_fields:
  assumes "isRetriable (errorMessage e)"
  shows "messageQueue (afterSendRejected cfg rt a e s) = a # messageQueue s"
    and "awaiting (afterSendRejected cfg rt a e s) = AwaitRetryPause (clock s + retryAfter cfg)"
    and "isProcessingQueue (afterSendRejected cfg rt a e s) = isProcessingQueue s"
    and "outbox (afterSendRejected cfg rt a e s) = outbox s"
    and "clock (afterSendRejected cfg rt a e s) = clock s"
  using assms by (simp_all add: afterSendRejected_def debugLog_def errorLog_def Let_def)

lemma drop_result:
  assumes "\<not> isRetriable (errorMessage e)"
  shows "afterSendRejected cfg rt a e s =
     loopHead cfg rt (errorLog (ErrFormatSkipped (ident a))
       (errorLog (ErrNotification (ident a) (errorMessage e)) s))"
  using assms by (simp add: afterSendRejected_def Let_def)

lemma loopHead_console: "set (console s) \<subseteq> set (console (loopHead cfg rt s))"
  by (auto simp: loopHead_def sendStart_def debugLog_def Let_def split: list.splits option.splits)

lemma loopHead_no_pause: "awaiting (loopHead cfg rt s) \<noteq> AwaitRetryPause due"
  by (simp add: loopHead_def sendStart_def debugLog_def Let_def split: list.splits option.splits)

lemma loopHead_queue: "messageQueue (loopHead cfg rt s) = drop 1 (messageQueue s)"
  by (simp add: loopHead_def sendStart_def debugLog_def Let_def split: list.splits option.splits)

lemma drop_fields:
  assumes "\<not> isRetriable (errorMessage e)"
  shows "\<And>due. awaiting (afterSendRejected cfg rt a e s) \<noteq> AwaitRetryPause due"
    and "messageQueue (afterSendRejected cfg rt a e s) = drop 1 (messageQueue s)"
    and "ErrFormatSkipped (ident a) \<in> set (console (afterSendRejected cfg rt a e s))"
proof -
  let ?u = "errorLog (ErrFormatSkipped (ident a)) (errorLog (ErrNotification (ident a) (errorMessage e)) s)"
  have eq: "afterSendRejected cfg rt a e s = loopHead cfg rt ?u"
    by (rule drop_result[OF assms])
  show "\<And>due. awaiting (afterSendRejected cfg rt a e s) \<noteq> AwaitRetryPause due"
    by (simp add: eq loopHead_no_pause)
  show "messageQueue (afterSendRejected cfg rt a e s) = drop 1 (messageQueue s)"
    by (simp add: eq loopHead_queue errorLog_def)
  have "ErrFormatSkipped (ident a) \<in> set (console ?u)" by (simp add: errorLog_def)
  then show "ErrFormatSkipped (ident a) \<in> set (console (afterSendRejected cfg rt a e s))"
    unfolding eq using loopHead_console by blast
qed





text \<open>Claim C6. Whether a rejected send is retried depends on the error's message only:
  the appointment is put back and the retry pause entered exactly when the message
  contains neither \<^verbatim>\<open>can't parse entities\<close> nor \<^verbatim>\<open>Bad Request\<close>; otherwise it is
  dropped. Two errors with the same message lead to the same state.\<close>

theorem retry_decision_by_message:
  assumes "awaiting s = AwaitSend a started" and "clock s \<le> t"
  shows "\<exists>s'. step cfg rt s (SendRejected t e) = Some s'
      \<and> ((\<exists>due. awaiting s' = AwaitRetryPause due) \<longleftrightarrow>
           \<not> ((\<exists>p q. errorMessage e = p @ ''can't parse entities'' @ q)
              \<or> (\<exists>p q. errorMessage e = p @ ''Bad Request'' @ q)))
      \<and> ((\<exists>due. awaiting s' = AwaitRetryPause due) \<longrightarrow>
           messageQueue s' = a # messageQueue s \<and> outbox s' = outbox s)
      \<and> (\<not> (\<exists>due. awaiting s' = AwaitRetryPause due) \<longrightarrow>
           messageQueue s' = drop 1 (messageQueue s) \<and> ErrFormatSkipped (ident a) \<in> set (console s'))
      \<and> (\<forall>e'. errorMessage e' = errorMessage e \<longrightarrow> step cfg rt s (SendRejected t e') = Some s')"
proof -
  let ?s' = "afterSendRejected cfg rt a e (s\<lparr>clock := t\<rparr>)"
  have st: "step cfg rt s (SendRejected t e) = Some ?s'"
    by (rule rejected_step[OF assms])
  have same: "\<forall>e'. errorMessage e' = errorMessage e \<longrightarrow> step cfg rt s (SendRejected t e') = Some ?s'"
    using assms by (simp add: step_def afterSendRejected_def Let_def)
  have cls: "isRetriable (errorMessage e) \<longleftrightarrow>
       \<not> ((\<exists>p q. errorMessage e = p @ ''can't parse entities'' @ q)
          \<or> (\<exists>p q. errorMessage e = p @ ''Bad Request'' @ q))"
    by (simp add: isRetriable_def stringIncludes_iff)
  show ?thesis
  proof (cases "isRetriable (errorMessage e)")
    case True
    from requeue_fields[OF True, where cfg = cfg and rt = rt and a = a and s = "s\<lparr>clock := t\<rparr>"] st same cls True
    show ?thesis by auto
  next
    case False
    from drop_fields[OF False, where cfg = cfg and rt = rt and a = a and s = "s\<lparr>clock := t\<rparr>"] st same cls False
    show ?thesis by auto
  qed
qed


lemma timer_step_pause:
  assumes "awaiting s = AwaitRetryPause due" and "clock s \<le> t"
  shows "step cfg rt s (TimerFired t) = (if due \<le> t then Some (afterRetryPause (s\<lparr>clock := t\<rparr>)) else None)"
  using assms by (simp add: step_def Let_def)

lemma idle_only_enqueue:
  assumes "awaiting s = NotRunning"
  shows "step cfg rt s (TimerFired t) = None"
    and "step cfg rt s (SendResolved t) = None"
    and "step cfg rt s (SendRejected t e) = None"
  using assms by (simp_all add: step_def Let_def)

lemma enqueue_step:
  assumes "isProcessingQueue s \<longleftrightarrow> awaiting s \<noteq> NotRunning" and "clock s \<le> t"
  shows "step cfg rt s (Enqueue t a) = Some (snd (sendNotification cfg rt a (s\<lparr>clock := t\<rparr>)))"
  using assms by (auto simp: step_def Let_def)

lemma start_fields:
  assumes "\<not> isProcessingQueue s" and "messageQueue s = b # rest"
  shows "messageQueue (snd (sendNotification cfg rt a s)) = rest @ [a]"
    and "isProcessingQueue (snd (sendNotification cfg rt a s))"
    and "(awaiting (snd (sendNotification cfg rt a s)) = AwaitSend b (clock s)
           \<and> outbox (snd (sendNotification cfg rt a s)) = outbox s @
             [\<lparr>callTime = clock s, callChat = channelId cfg, callText = formatMessage rt b, callAppointment = b\<rparr>])
         \<or> ((\<exists>due. awaiting (snd (sendNotification cfg rt a s)) = AwaitRateLimit b due)
             \<and> outbox (snd (sendNotification cfg rt a s)) = outbox s)"
proof -
  let ?u = "s\<lparr>messageQueue := messageQueue s @ [a], isProcessingQueue := True\<rparr>"
  have eq: "snd (sendNotification cfg rt a s) = loopHead cfg rt ?u"
    using assms(1) by (simp add: sendNotification_def processQueue_def Let_def)
  have q: "messageQueue ?u = b # (rest @ [a])" using assms(2) by simp
  from loopHead_Cons[OF q, of cfg rt]
  show "messageQueue (snd (sendNotification cfg rt a s)) = rest @ [a]"
    and "isProcessingQueue (snd (sendNotification cfg rt a s))"
    and "(awaiting (snd (sendNotification cfg rt a s)) = AwaitSend b (clock s)
           \<and> outbox (snd (sendNotification cfg rt a s)) = outbox s @
             [\<lparr>callTime = clock s, callChat = channelId cfg, callText = formatMessage rt b, callAppointment = b\<rparr>])
         \<or> ((\<exists>due. awaiting (snd (sendNotification cfg rt a s)) = AwaitRateLimit b due)
             \<and> outbox (snd (sendNotification cfg rt a s)) = outbox s)"
    by (simp_all add: eq)
qed

text \<open>Claim C4. When the send of \<open>e\<close> is rejected with a retried error while other
  appointments wait in the queue, \<open>e\<close> is put back in front of them; the queue is the same
  after the pause; and the next invocation of the loop (started by the next call of
  \<^verbatim>\<open>sendNotification\<close>) pops \<open>e\<close> before them, leaving the others in their order with the
  new appointment behind them.\<close>

theorem requeue_at_front:
  assumes "awaiting s = AwaitSend e started" and "clock s \<le> t"
    and "isRetriable (errorMessage err)"
    and "t + retryAfter cfg \<le> t2" and "t \<le> t2" and "t2 \<le> t3"
  shows "\<exists>s1 s2 s3.
       step cfg rt s (SendRejected t err) = Some s1
     \<and> messageQueue s1 = e # messageQueue s
     \<and> step cfg rt s1 (TimerFired t2) = Some s2
     \<and> messageQueue s2 = e # messageQueue s
     \<and> step cfg rt s2 (Enqueue t3 h) = Some s3
     \<and> messageQueue s3 = messageQueue s @ [h]
     \<and> (awaiting s3 = AwaitSend e t3 \<or> (\<exists>due. awaiting s3 = AwaitRateLimit e due))"
proof -
  let ?s1 = "afterSendRejected cfg rt e err (s\<lparr>clock := t\<rparr>)"
  let ?s2 = "afterRetryPause (?s1\<lparr>clock := t2\<rparr>)"
  let ?s3 = "snd (sendNotification cfg rt h (?s2\<lparr>clock := t3\<rparr>))"
  note rq = requeue_fields[OF assms(3), where cfg = cfg and rt = rt and a = e and s = "s\<lparr>clock := t\<rparr>"]
  have st1: "step cfg rt s (SendRejected t err) = Some ?s1"
    by (rule rejected_step[OF assms(1,2)])
  have q1: "messageQueue ?s1 = e # messageQueue s" using rq by simp
  have "step cfg rt ?s1 (TimerFired t2) = Some ?s2"
    using timer_step_pause[of ?s1 "t + retryAfter cfg" t2 cfg rt] rq assms(4,5) by simp
  then have st2: "step cfg rt ?s1 (TimerFired t2) = Some ?s2" .
  have f2: "messageQueue ?s2 = e # messageQueue s" "\<not> isProcessingQueue ?s2"
    "awaiting ?s2 = NotRunning" "clock ?s2 = t2"
    using q1 by (simp_all add: afterRetryPause_def)
  have st3: "step cfg rt ?s2 (Enqueue t3 h) = Some ?s3"
    by (rule enqueue_step) (use f2 assms(6) in simp_all)
  have idle: "\<not> isProcessingQueue (?s2\<lparr>clock := t3\<rparr>)"
    and q2: "messageQueue (?s2\<lparr>clock := t3\<rparr>) = e # messageQueue s"
    using f2 by simp_all
  from start_fields[OF idle q2, of cfg rt h]
  have "messageQueue ?s3 = messageQueue s @ [h]"
    and "awaiting ?s3 = AwaitSend e t3 \<or> (\<exists>due. awaiting ?s3 = AwaitRateLimit e due)"
    by auto
  with st1 q1 st2 f2(1) st3 show ?thesis by blast
qed

text \<open>Claim C3, amended. When the pending send is rejected with a retried error, the
  appointment is put back at the front of the queue and the invocation waits in the timer of
  the configured pause, without calling the endpoint; the timer cannot fire before
  \<open>retryAfter\<close> has passed; when it fires the invocation ends with the flag down and the
  queue untouched. In that state no timer and no send is pending, so the appointments left
  in the queue start nothing; the next call of \<^verbatim>\<open>sendNotification\<close> starts the loop
  again, beginning with the appointment that was put back.\<close>

theorem transient_failure_pauses_and_stops:
  assumes "awaiting s = AwaitSend a started" and "clock s \<le> t"
    and "isRetriable (errorMessage e)" and "isProcessingQueue s"
    and "t + retryAfter cfg \<le> t2" and "t \<le> t2" and "t2 \<le> t3"
  shows "\<exists>s1 s2 s3.
       step cfg rt s (SendRejected t e) = Some s1
     \<and> messageQueue s1 = a # messageQueue s
     \<and> awaiting s1 = AwaitRetryPause (t + retryAfter cfg)
     \<and> isProcessingQueue s1
     \<and> outbox s1 = outbox s
     \<and> (\<forall>t'. t' < t + retryAfter cfg \<longrightarrow> step cfg rt s1 (TimerFired t') = None)
     \<and> step cfg rt s1 (TimerFired t2) = Some s2
     \<and> \<not> isProcessingQueue s2 \<and> awaiting s2 = NotRunning
     \<and> messageQueue s2 = a # messageQueue s
     \<and> outbox s2 = outbox s
     \<and> (\<forall>t'. step cfg rt s2 (TimerFired t') = None \<and> step cfg rt s2 (SendResolved t') = None)
     \<and> (\<forall>t' e'. step cfg rt s2 (SendRejected t' e') = None)
     \<and> step cfg rt s2 (Enqueue t3 h) = Some s3
     \<and> isProcessingQueue s3
     \<and> (awaiting s3 = AwaitSend a t3 \<or> (\<exists>due. awaiting s3 = AwaitRateLimit a due))"
proof -
  let ?s1 = "afterSendRejected cfg rt a e (s\<lparr>clock := t\<rparr>)"
  let ?s2 = "afterRetryPause (?s1\<lparr>clock := t2\<rparr>)"
  let ?s3 = "snd (sendNotification cfg rt h (?s2\<lparr>clock := t3\<rparr>))"
  note rq = requeue_fields[OF assms(3), where cfg = cfg and rt = rt and a = a and s = "s\<lparr>clock := t\<rparr>"]
  have st1: "step cfg rt s (SendRejected t e) = Some ?s1"
    by (rule rejected_step[OF assms(1,2)])
  have f1: "messageQueue ?s1 = a # messageQueue s"
    "awaiting ?s1 = AwaitRetryPause (t + retryAfter cfg)"
    "isProcessingQueue ?s1" "outbox ?s1 = outbox s" "clock ?s1 = t"
    using rq assms(4) by simp_all
  have early: "\<forall>t'. t' < t + retryAfter cfg \<longrightarrow> step cfg rt ?s1 (TimerFired t') = None"
    using f1 by (simp add: step_def Let_def)
  have st2: "step cfg rt ?s1 (TimerFired t2) = Some ?s2"
    using timer_step_pause[of ?s1 "t + retryAfter cfg" t2 cfg rt] f1 assms(5,6) by simp
  have f2: "\<not> isProcessingQueue ?s2" "awaiting ?s2 = NotRunning"
    "messageQueue ?s2 = a # messageQueue s" "outbox ?s2 = outbox s" "clock ?s2 = t2"
    using f1 by (simp_all add: afterRetryPause_def)
  have quiet: "\<forall>t'. step cfg rt ?s2 (TimerFired t') = None \<and> step cfg rt ?s2 (SendResolved t') = None"
    "\<forall>t' e'. step cfg rt ?s2 (SendRejected t' e') = None"
    using idle_only_enqueue[OF f2(2)] by simp_all
  have st3: "step cfg rt ?s2 (Enqueue t3 h) = Some ?s3"
    by (rule enqueue_step) (use f2 assms(7) in simp_all)
  have idle: "\<not> isProcessingQueue (?s2\<lparr>clock := t3\<rparr>)"
    and q2: "messageQueue (?s2\<lparr>clock := t3\<rparr>) = a # messageQueue s"
    using f2 by simp_all
  from start_fields[OF idle q2, of cfg rt h]
  have f3: "isProcessingQueue ?s3"
    "awaiting ?s3 = AwaitSend a t3 \<or> (\<exists>due. awaiting ?s3 = AwaitRateLimit a due)"
    by auto
  from st1 f1(1-4) early st2 f2(1-4) quiet st3 f3 show ?thesis by blast
qed

text \<open>The claim as written has the appointments left in the queue restart the loop. One
  appointment, one rejected send, the pause: the service is idle with the appointment still
  queued, it was handed to the endpoint once, and nothing but a producer's call can happen.\<close>

theorem residual_items_counterexample:
  "\<exists>s. run demoConfig asciiRuntime (initial 5000)
          [Enqueue 5000 (demoEvent 1), SendRejected 5100 (ErrorObject ''ETIMEDOUT''),
           TimerFired 10100] = Some s
       \<and> messageQueue s = [demoEvent 1]
       \<and> \<not> isProcessingQueue s
       \<and> awaiting s = NotRunning
       \<and> length (outbox s) = 1
       \<and> (\<forall>t. step demoConfig asciiRuntime s (TimerFired t) = None
              \<and> step demoConfig asciiRuntime s (SendResolved t) = None)
       \<and> (\<forall>t e. step demoConfig asciiRuntime s (SendRejected t e) = None)"
  by (simp add: dispatcher_defs)

lemma sendNotification_backlog:
  assumes "isProcessingQueue s \<longleftrightarrow> awaiting s \<noteq> NotRunning"
  shows "delivered (snd (sendNotification cfg rt a s)) @ held (snd (sendNotification cfg rt a s))
           @ messageQueue (snd (sendNotification cfg rt a s))
         = delivered s @ held s @ messageQueue s @ [a]"
proof (cases "isProcessingQueue s")
  case True
  then show ?thesis
    by (simp add: sendNotification_def delivered_def held_def Let_def)
next
  case False
  with assms have idle: "awaiting s = NotRunning" by simp
  from False idle show ?thesis
    by (cases "messageQueue s")
       (simp_all add: sendNotification_def processQueue_def loopHead_def sendStart_def debugLog_def
          delivered_def held_def Let_def split: option.splits)
qed

text \<open>Claim C7. In every state a run can reach, and at every later time, a call of
  \<^verbatim>\<open>sendNotification\<close> can happen; it returns \<open>True\<close>, whatever becomes of the
  appointment; it leaves the loop running; the appointment is added behind everything
  that was pending; and when the loop was already running nothing else changes.\<close>

theorem enqueue_always_accepts:
  assumes "run cfg rt (initial t0) acts = Some s" and "clock s \<le> t"
  shows "\<exists>s'. step cfg rt s (Enqueue t a) = Some s'
      \<and> sendNotification cfg rt a (s\<lparr>clock := t\<rparr>) = (True, s')
      \<and> isProcessingQueue s'
      \<and> delivered s' @ held s' @ messageQueue s' = delivered s @ held s @ messageQueue s @ [a]
      \<and> (isProcessingQueue s \<longrightarrow>
            messageQueue s' = messageQueue s @ [a] \<and> awaiting s' = awaiting s \<and> outbox s' = outbox s)"
proof -
  let ?s0 = "s\<lparr>clock := t\<rparr>"
  let ?s' = "snd (sendNotification cfg rt a ?s0)"
  have fl: "isProcessingQueue s \<longleftrightarrow> awaiting s \<noteq> NotRunning"
    by (rule running_flag[OF assms(1)])
  have st: "step cfg rt s (Enqueue t a) = Some ?s'"
    by (rule enqueue_step[OF fl assms(2)])
  have res: "sendNotification cfg rt a ?s0 = (True, ?s')"
    by (simp add: sendNotification_def Let_def)
  have fl0: "isProcessingQueue ?s0 \<longleftrightarrow> awaiting ?s0 \<noteq> NotRunning" using fl by simp
  from sendNotification_backlog[OF fl0, of cfg rt a]
  have bk: "delivered ?s' @ held ?s' @ messageQueue ?s' = delivered s @ held s @ messageQueue s @ [a]"
    by (simp add: delivered_def held_def)
  have up: "isProcessingQueue ?s'"
    by (cases "messageQueue s")
       (simp_all add: sendNotification_def processQueue_def loopHead_def sendStart_def debugLog_def
          Let_def split: option.splits)
  have run: "isProcessingQueue s \<longrightarrow>
      messageQueue ?s' = messageQueue s @ [a] \<and> awaiting ?s' = awaiting s \<and> outbox ?s' = outbox s"
    by (simp add: sendNotification_def Let_def)
  from st res up bk run show ?thesis by blast
qed

subsection \<open>The properties on concrete runs\<close>


lemma demo_first_send:
  "\<exists>s. run demoConfig asciiRuntime (initial 5000) [Enqueue 5000 (demoEvent 1)] = Some s
     \<and> awaiting s = AwaitSend (demoEvent 1) 5000 \<and> clock s = 5000 \<and> isProcessingQueue s
     \<and> messageQueue s = []"
  by (simp add: dispatcher_defs)

lemma timeout_retriable: "isRetriable (errorMessage (ErrorObject ''ETIMEDOUT''))"
  by (simp add: isRetriable_def)


theorem transient_failure_witness:
  "\<exists>s s1 s2 s3.
       run demoConfig asciiRuntime (initial 5000) [Enqueue 5000 (demoEvent 1)] = Some s
     \<and> step demoConfig asciiRuntime s (SendRejected 5100 (ErrorObject ''ETIMEDOUT'')) = Some s1
     \<and> messageQueue s1 = [demoEvent 1]
     \<and> awaiting s1 = AwaitRetryPause 10100
     \<and> step demoConfig asciiRuntime s1 (TimerFired 10100) = Some s2
     \<and> \<not> isProcessingQueue s2
     \<and> messageQueue s2 = [demoEvent 1]
     \<and> step demoConfig asciiRuntime s2 (Enqueue 20000 (demoEvent 2)) = Some s3
     \<and> isProcessingQueue s3
     \<and> (awaiting s3 = AwaitSend (demoEvent 1) 20000
          \<or> (\<exists>due. awaiting s3 = AwaitRateLimit (demoEvent 1) due))"
proof -
  from demo_first_send obtain s where
    r: "run demoConfig asciiRuntime (initial 5000) [Enqueue 5000 (demoEvent 1)] = Some s"
    and aw: "awaiting s = AwaitSend (demoEvent 1) 5000" and ck: "clock s \<le> 5100"
    and fl: "isProcessingQueue s" and q: "messageQueue s = []" by auto
  have p: "(5100::rat) + retryAfter demoConfig \<le> 10100" "(5100::rat) \<le> 10100" "(10100::rat) \<le> 20000"
    by (simp_all add: demoConfig_def)
  have ra: "5100 + retryAfter demoConfig = 10100" by (simp add: demoConfig_def)
  from transient_failure_pauses_and_stops[OF aw ck timeout_retriable fl p,
      where rt = asciiRuntime and h = "demoEvent 2"]
  obtain s1 s2 s3 where
    "step demoConfig asciiRuntime s (SendRejected 5100 (ErrorObject ''ETIMEDOUT'')) = Some s1"
    "messageQueue s1 = demoEvent 1 # messageQueue s"
    "awaiting s1 = AwaitRetryPause (5100 + retryAfter demoConfig)"
    "step demoConfig asciiRuntime s1 (TimerFired 10100) = Some s2"
    "\<not> isProcessingQueue s2" "messageQueue s2 = demoEvent 1 # messageQueue s"
    "step demoConfig asciiRuntime s2 (Enqueue 20000 (demoEvent 2)) = Some s3"
    "isProcessingQueue s3"
    "awaiting s3 = AwaitSend (demoEvent 1) 20000 \<or> (\<exists>due. awaiting s3 = AwaitRateLimit (demoEvent 1) due)"
    by blast
  with r q ra show ?thesis by (simp del: ex_simps)
qed

lemma demo_three_queued:
  "\<exists>s. run demoConfig asciiRuntime (initial 5000)
          [Enqueue 5000 (demoEvent 1), Enqueue 5001 (demoEvent 2), Enqueue 5002 (demoEvent 3)] = Some s
     \<and> awaiting s = AwaitSend (demoEvent 1) 5000 \<and> clock s = 5002 \<and> isProcessingQueue s
     \<and> messageQueue s = [demoEvent 2, demoEvent 3] \<and> length (outbox s) = 1"
  by (simp add: dispatcher_defs)

theorem requeue_at_front_witness:
  "\<exists>s s1 s2 s3.
       run demoConfig asciiRuntime (initial 5000)
          [Enqueue 5000 (demoEvent 1), Enqueue 5001 (demoEvent 2), Enqueue 5002 (demoEvent 3)] = Some s
     \<and> step demoConfig asciiRuntime s (SendRejected 5100 (ErrorObject ''ETIMEDOUT'')) = Some s1
     \<and> messageQueue s1 = [demoEvent 1, demoEvent 2, demoEvent 3]
     \<and> step demoConfig asciiRuntime s1 (TimerFired 10100) = Some s2
     \<and> messageQueue s2 = [demoEvent 1, demoEvent 2, demoEvent 3]
     \<and> step demoConfig asciiRuntime s2 (Enqueue 20000 (demoEvent 4)) = Some s3
     \<and> messageQueue s3 = [demoEvent 2, demoEvent 3, demoEvent 4]
     \<and> (awaiting s3 = AwaitSend (demoEvent 1) 20000
          \<or> (\<exists>due. awaiting s3 = AwaitRateLimit (demoEvent 1) due))"
proof -
  from demo_three_queued obtain s where
    r: "run demoConfig asciiRuntime (initial 5000)
          [Enqueue 5000 (demoEvent 1), Enqueue 5001 (demoEvent 2), Enqueue 5002 (demoEvent 3)] = Some s"
    and aw: "awaiting s = AwaitSend (demoEvent 1) 5000" and ck: "clock s \<le> 5100"
    and q: "messageQueue s = [demoEvent 2, demoEvent 3]" by auto
  have p: "(5100::rat) + retryAfter demoConfig \<le> 10100" "(5100::rat) \<le> 10100" "(10100::rat) \<le> 20000"
    by (simp_all add: demoConfig_def)
  from requeue_at_front[OF aw ck timeout_retriable p, where rt = asciiRuntime and h = "demoEvent 4"]
  obtain s1 s2 s3 where
    "step demoConfig asciiRuntime s (SendRejected 5100 (ErrorObject ''ETIMEDOUT'')) = Some s1"
    "messageQueue s1 = demoEvent 1 # messageQueue s"
    "step demoConfig asciiRuntime s1 (TimerFired 10100) = Some s2"
    "messageQueue s2 = demoEvent 1 # messageQueue s"
    "step demoConfig asciiRuntime s2 (Enqueue 20000 (demoEvent 4)) = Some s3"
    "messageQueue s3 = messageQueue s @ [demoEvent 4]"
    "awaiting s3 = AwaitSend (demoEvent 1) 20000 \<or> (\<exists>due. awaiting s3 = AwaitRateLimit (demoEvent 1) due)"
    by blast
  with r q show ?thesis by (simp del: ex_simps)
qed


theorem retry_decision_witness:
  "\<exists>s s'.
       run demoConfig asciiRuntime (initial 5000) [Enqueue 5000 (demoEvent 1)] = Some s
     \<and> step demoConfig asciiRuntime s (SendRejected 5100 (OtherValue ''Bad Request: chat not found'')) = Some s'
     \<and> messageQueue s' = []
     \<and> ErrFormatSkipped 1 \<in> set (console s')
     \<and> step demoConfig asciiRuntime s (SendRejected 5100 (ErrorObject ''Bad Request: chat not found'')) = Some s'"
proof -
  from demo_first_send obtain s where
    r: "run demoConfig asciiRuntime (initial 5000) [Enqueue 5000 (demoEvent 1)] = Some s"
    and aw: "awaiting s = AwaitSend (demoEvent 1) 5000" and ck: "clock s \<le> 5100"
    and q: "messageQueue s = []" by auto
  let ?e = "OtherValue ''Bad Request: chat not found''"
  have "errorMessage ?e = [] @ ''Bad Request'' @ '': chat not found''" by simp
  then have has: "\<exists>p q. errorMessage ?e = p @ ''Bad Request'' @ q" by blast
  have same: "errorMessage (ErrorObject ''Bad Request: chat not found'') = errorMessage ?e" by simp
  from retry_decision_by_message[OF aw ck, where cfg = demoConfig and rt = asciiRuntime and e = ?e]
  obtain s' where st: "step demoConfig asciiRuntime s (SendRejected 5100 ?e) = Some s'"
    and iff: "(\<exists>due. awaiting s' = AwaitRetryPause due) \<longleftrightarrow>
           \<not> ((\<exists>p q. errorMessage ?e = p @ ''can't parse entities'' @ q)
              \<or> (\<exists>p q. errorMessage ?e = p @ ''Bad Request'' @ q))"
    and dr: "\<not> (\<exists>due. awaiting s' = AwaitRetryPause due) \<longrightarrow>
           messageQueue s' = drop 1 (messageQueue s) \<and> ErrFormatSkipped (ident (demoEvent 1)) \<in> set (console s')"
    and sm: "\<forall>e'. errorMessage e' = errorMessage ?e \<longrightarrow> step demoConfig asciiRuntime s (SendRejected 5100 e') = Some s'"
    by blast
  from iff has have "\<not> (\<exists>due. awaiting s' = AwaitRetryPause due)" by blast
  with dr q have "messageQueue s' = []" "ErrFormatSkipped 1 \<in> set (console s')"
    by (simp_all add: demoEvent_def)
  moreover from sm same
  have "step demoConfig asciiRuntime s (SendRejected 5100 (ErrorObject ''Bad Request: chat not found'')) = Some s'"
    by blast
  ultimately show ?thesis using r st by blast
qed

theorem enqueue_always_accepts_witness:
  "\<exists>s s'.
       run demoConfig asciiRuntime (initial 5000) [Enqueue 5000 (demoEvent 1)] = Some s
     \<and> step demoConfig asciiRuntime s (Enqueue 5001 (demoEvent 2)) = Some s'
     \<and> sendNotification demoConfig asciiRuntime (demoEvent 2) (s\<lparr>clock := 5001\<rparr>) = (True, s')
     \<and> isProcessingQueue s'
     \<and> messageQueue s' = [demoEvent 2]
     \<and> awaiting s' = AwaitSend (demoEvent 1) 5000"
proof -
  from demo_first_send obtain s where
    r: "run demoConfig asciiRuntime (initial 5000) [Enqueue 5000 (demoEvent 1)] = Some s"
    and aw: "awaiting s = AwaitSend (demoEvent 1) 5000" and ck: "clock s \<le> 5001"
    and fl: "isProcessingQueue s" and q: "messageQueue s = []" by auto
  from enqueue_always_accepts[OF r ck, where a = "demoEvent 2"]
  obtain s' where
    "step demoConfig asciiRuntime s (Enqueue 5001 (demoEvent 2)) = Some s'"
    "sendNotification demoConfig asciiRuntime (demoEvent 2) (s\<lparr>clock := 5001\<rparr>) = (True, s')"
    "isProcessingQueue s'"
    "isProcessingQueue s \<longrightarrow>
       messageQueue s' = messageQueue s @ [demoEvent 2] \<and> awaiting s' = awaiting s \<and> outbox s' = outbox s"
    by blast
  with r aw fl q show ?thesis by (simp del: ex_simps)
qed

end
